theory Spec2Isabelle
  imports Main "HOL-Library.Word" "HOL-Library.Multiset" "HOL-Library.AList" "HOL-Library.Sublist"
begin

unbundle bit_operations_syntax

section \<open>JavaScript strings\<close>

text \<open>
  A JavaScript string is a sequence of UTF-16 code units, and \<^verbatim>\<open>length\<close> counts code
  units. String literals of the source are written \<open>js ''...''\<close>.
\<close>

type_synonym jschar = "16 word"
type_synonym jsstring = "jschar list"

definition js :: "string \<Rightarrow> jsstring" where
  "js s = map of_char s"

text \<open>
  \<^verbatim>\<open>String.prototype.trim\<close> removes leading and trailing WhiteSpace and LineTerminator
  code points (ECMA-262: TAB, VT, FF, SP, NBSP, ZWNBSP, the category Zs, LF, CR, LS, PS).
\<close>

definition isWhiteSpace :: "jschar \<Rightarrow> bool" where
  "isWhiteSpace c \<longleftrightarrow>
     c \<in> set [0x9, 0xA, 0xB, 0xC, 0xD, 0x20, 0xA0, 0x1680,
              0x2000, 0x2001, 0x2002, 0x2003, 0x2004, 0x2005, 0x2006, 0x2007,
              0x2008, 0x2009, 0x200A, 0x2028, 0x2029, 0x202F, 0x205F, 0x3000, 0xFEFF]"

definition trim :: "jsstring \<Rightarrow> jsstring" where
  "trim s = rev (dropWhile isWhiteSpace (rev (dropWhile isWhiteSpace s)))"

text \<open>
  \<^verbatim>\<open>Number.prototype.toString\<close> on an integer (below 1e21 in magnitude, as every clock
  reading is): the decimal digits, with a minus sign for a negative number.
\<close>

fun digits :: "nat \<Rightarrow> jsstring" where
  "digits n = (if n < 10 then [of_nat (48 + n)] else digits (n div 10) @ [of_nat (48 + n mod 10)])"

declare digits.simps [simp del]

definition toString :: "int \<Rightarrow> jsstring" where
  "toString n = (if n < 0 then 0x2D # digits (nat (- n)) else digits (nat n))"

section \<open>JSON text\<close>

text \<open>
  A Number as \<^verbatim>\<open>JSON.parse\<close> can give it. \<open>Finite s m e\<close> is the double with the value
  \<open>m * 2 ^ e\<close>, negative when \<open>s\<close> is true, where \<open>m < 2 ^ 53\<close> and \<open>- 1074 \<le> e \<le> 971\<close>, and
  \<open>2 ^ 52 \<le> m\<close> unless \<open>e = - 1074\<close> (zero and the subnormal numbers): every finite double
  is written so in one way. \<open>Infinity s\<close> is the infinity of that sign.
\<close>

datatype double = Finite bool nat int | Infinity bool

text \<open>
  The values that \<^verbatim>\<open>JSON.stringify\<close> and \<^verbatim>\<open>JSON.parse\<close> exchange. An object is the list
  of its properties in the order in which \<^verbatim>\<open>JSON.stringify\<close> and \<^verbatim>\<open>Object.keys\<close> go
  through them.
\<close>

datatype json =
    JNull
  | JBool bool
  | JNum double
  | JStr jsstring
  | JArr "json list"
  | JObj "(jsstring \<times> json) list"

subsection \<open>Numbers and their decimal form\<close>

text \<open>The number of binary digits of a natural number.\<close>

fun bitLength :: "nat \<Rightarrow> nat" where
  "bitLength n = (if n = 0 then 0 else Suc (bitLength (n div 2)))"

declare bitLength.simps [simp del]

text \<open>The fraction \<open>a / b / base ^ p\<close> as numerator and denominator.\<close>

definition scaled :: "nat \<Rightarrow> nat \<Rightarrow> nat \<Rightarrow> int \<Rightarrow> nat \<times> nat" where
  "scaled base a b p = (if 0 \<le> p then (a, b * base ^ nat p) else (a * base ^ nat (- p), b))"

text \<open>Whether \<open>base ^ p \<le> a / b\<close>.\<close>

definition atLeastPower :: "nat \<Rightarrow> nat \<Rightarrow> nat \<Rightarrow> int \<Rightarrow> bool" where
  "atLeastPower base a b p = (case scaled base a b p of (num, den) \<Rightarrow> den \<le> num)"

text \<open>A fraction rounded to the nearest integer, and to the even one of two nearest.\<close>

definition roundHalfEven :: "nat \<times> nat \<Rightarrow> nat" where
  "roundHalfEven f =
     (case f of (num, den) \<Rightarrow>
        if 2 * (num mod den) < den \<or> (2 * (num mod den) = den \<and> even (num div den))
        then num div den else Suc (num div den))"

text \<open>
  The Number value of the real \<open>a / b\<close> with the given sign (\<open>0 < b\<close>): the double nearest
  to it, the one with the even significand of two nearest, and an infinity from
  \<open>2 ^ 1024 - 2 ^ 970\<close> on. \<open>e\<close> is the binary exponent of \<open>a / b\<close>, that is
  \<open>2 ^ e \<le> a / b < 2 ^ (e + 1)\<close>, and \<open>k\<close> the exponent of the last binary place kept.
\<close>

definition toDouble :: "bool \<Rightarrow> nat \<Rightarrow> nat \<Rightarrow> double" where
  "toDouble sign a b =
     (if a = 0 then Finite sign 0 (- 1074)
      else
        (let p = int (bitLength a) - int (bitLength b);
             e = (if atLeastPower 2 a b p then p else p - 1);
             k = max (e - 52) (- 1074);
             m = roundHalfEven (scaled 2 a b k)
         in if m = 2 ^ 53 then
              (if 971 < k + 1 then Infinity sign else Finite sign (2 ^ 52) (k + 1))
            else if 971 < k then Infinity sign
            else Finite sign m k))"

text \<open>The Number value of \<open>n * 10 ^ e\<close>.\<close>

definition decimalToDouble :: "bool \<Rightarrow> nat \<Rightarrow> int \<Rightarrow> double" where
  "decimalToDouble sign n e = (case scaled 10 n 1 (- e) of (a, b) \<Rightarrow> toDouble sign a b)"

text \<open>
  Number::toString looks for integers \<open>s\<close>, \<open>k\<close> and \<open>n\<close> such that \<open>s\<close> has \<open>k\<close> decimal
  digits, the Number value of \<open>s * 10 ^ (n - k)\<close> is the number, and \<open>k\<close> is as small as
  possible. For the positive double \<open>m * 2 ^ e\<close> and a given \<open>k\<close>, the two decimals of \<open>k\<close>
  digits next to it are tried, the nearer one first (the even one when they are equally
  near): \<open>candidates\<close> gives the triples \<open>(s, k, n)\<close> among them whose Number value is the
  double.
\<close>

definition candidates :: "nat \<Rightarrow> int \<Rightarrow> nat \<Rightarrow> (nat \<times> nat \<times> int) list" where
  "candidates m e k =
     (case scaled 2 m 1 (- e) of (a, b) \<Rightarrow>
        (let d = int (length (digits a)) - int (length (digits b));
             n = (if atLeastPower 10 a b d then d + 1 else d);
             f = scaled 10 a b (n - int k);
             lo = fst f div snd f;
             below = (lo, k, n);
             above = (if Suc lo = 10 ^ k then (10 ^ (k - 1), k, n + 1) else (Suc lo, k, n))
         in filter (\<lambda>c. decimalToDouble False (fst c) (snd (snd c) - int k) = Finite False m e)
              (if roundHalfEven f = lo then [below, above] else [above, below])))"

text \<open>Seventeen digits tell every double from the others, so there is a first triple.\<close>

definition shortestDecimal :: "nat \<Rightarrow> int \<Rightarrow> nat \<times> nat \<times> int" where
  "shortestDecimal m e =
     (case concat (map (candidates m e) [1..<18]) of c # cs \<Rightarrow> c | [] \<Rightarrow> (0, 1, 1))"

text \<open>\<^verbatim>\<open>Number.prototype.toString\<close> (Number::toString with radix 10).\<close>

definition Number_toString :: "double \<Rightarrow> jsstring" where
  "Number_toString x =
     (case x of
        Infinity sign \<Rightarrow> (if sign then js ''-Infinity'' else js ''Infinity'')
      | Finite sign m e \<Rightarrow>
          if m = 0 then js ''0''
          else
            (if sign then [0x2D] else []) @
            (case shortestDecimal m e of
               (s, k, n) \<Rightarrow>
                 if int k \<le> n \<and> n \<le> 21 then digits s @ replicate (nat (n - int k)) 0x30
                 else if 0 < n \<and> n \<le> 21 then
                   take (nat n) (digits s) @ 0x2E # drop (nat n) (digits s)
                 else if - 6 < n \<and> n \<le> 0 then
                   js ''0.'' @ replicate (nat (- n)) 0x30 @ digits s
                 else
                   (if k = 1 then digits s else hd (digits s) # 0x2E # tl (digits s))
                   @ 0x65 # (if n - 1 < 0 then 0x2D else 0x2B) # digits (nat \<bar>n - 1\<bar>)))"

subsection \<open>\<^verbatim>\<open>JSON.stringify\<close>\<close>

definition hexDigit :: "nat \<Rightarrow> jschar" where
  "hexDigit d = (if d < 10 then of_nat (48 + d) else of_nat (87 + d))"

text \<open>\<^verbatim>\<open>\uXXXX\<close> with four lower-case hexadecimal digits.\<close>

definition unicodeEscape :: "jschar \<Rightarrow> jsstring" where
  "unicodeEscape c =
     [0x5C, 0x75, hexDigit (unat c div 4096), hexDigit (unat c div 256 mod 16),
      hexDigit (unat c div 16 mod 16), hexDigit (unat c mod 16)]"

definition isLeadingSurrogate :: "jschar \<Rightarrow> bool" where
  "isLeadingSurrogate c \<longleftrightarrow> 0xD800 \<le> c \<and> c \<le> 0xDBFF"

definition isTrailingSurrogate :: "jschar \<Rightarrow> bool" where
  "isTrailingSurrogate c \<longleftrightarrow> 0xDC00 \<le> c \<and> c \<le> 0xDFFF"

text \<open>
  One code unit that is not a surrogate, as QuoteJSONString writes it: the two-character
  escapes of the table, \<^verbatim>\<open>\uXXXX\<close> for the other control characters, the unit itself
  otherwise.
\<close>

definition escapeChar :: "jschar \<Rightarrow> jsstring" where
  "escapeChar c =
     (if c = 0x08 then [0x5C, 0x62]
      else if c = 0x09 then [0x5C, 0x74]
      else if c = 0x0A then [0x5C, 0x6E]
      else if c = 0x0C then [0x5C, 0x66]
      else if c = 0x0D then [0x5C, 0x72]
      else if c = 0x22 then [0x5C, 0x22]
      else if c = 0x5C then [0x5C, 0x5C]
      else if c < 0x20 then unicodeEscape c
      else [c])"

text \<open>
  The body of a quoted string. A surrogate pair is written as it is; a surrogate without
  its partner is written as a \<^verbatim>\<open>\uXXXX\<close> escape (well-formed \<^verbatim>\<open>JSON.stringify\<close>).
\<close>

fun quoteBody :: "jsstring \<Rightarrow> jsstring" where
  "quoteBody [] = []"
| "quoteBody [c] =
     (if isLeadingSurrogate c \<or> isTrailingSurrogate c then unicodeEscape c else escapeChar c)"
| "quoteBody (c # d # ds) =
     (if isLeadingSurrogate c then
        (if isTrailingSurrogate d then c # d # quoteBody ds
         else unicodeEscape c @ quoteBody (d # ds))
      else if isTrailingSurrogate c then unicodeEscape c @ quoteBody (d # ds)
      else escapeChar c @ quoteBody (d # ds))"

definition quoteJSONString :: "jsstring \<Rightarrow> jsstring" where
  "quoteJSONString s = 0x22 # quoteBody s @ [0x22]"

text \<open>
  Serialisation without indentation: elements and members are separated by a comma,
  a key from its value by a colon, with no white space. A finite number is written as
  \<^verbatim>\<open>toString\<close> writes it, an infinity as \<^verbatim>\<open>null\<close>.
\<close>

fun JSON_stringify :: "json \<Rightarrow> jsstring"
  and stringify_elements :: "json list \<Rightarrow> jsstring"
  and stringify_members :: "(jsstring \<times> json) list \<Rightarrow> jsstring"
where
  "JSON_stringify JNull = js ''null''"
| "JSON_stringify (JBool b) = (if b then js ''true'' else js ''false'')"
| "JSON_stringify (JNum x) =
     (case x of Finite sign m e \<Rightarrow> Number_toString x | Infinity sign \<Rightarrow> js ''null'')"
| "JSON_stringify (JStr s) = quoteJSONString s"
| "JSON_stringify (JArr xs) = 0x5B # stringify_elements xs @ [0x5D]"
| "JSON_stringify (JObj kvs) = 0x7B # stringify_members kvs @ [0x7D]"
| "stringify_elements [] = []"
| "stringify_elements [x] = JSON_stringify x"
| "stringify_elements (x # y # ys) = JSON_stringify x @ 0x2C # stringify_elements (y # ys)"
| "stringify_members [] = []"
| "stringify_members [(k, v)] = quoteJSONString k @ 0x3A # JSON_stringify v"
| "stringify_members ((k, v) # kv # kvs) =
     quoteJSONString k @ 0x3A # JSON_stringify v @ 0x2C # stringify_members (kv # kvs)"

subsection \<open>\<^verbatim>\<open>JSON.parse\<close>\<close>

definition isJSONWhiteSpace :: "jschar \<Rightarrow> bool" where
  "isJSONWhiteSpace c \<longleftrightarrow> c = 0x09 \<or> c = 0x0A \<or> c = 0x0D \<or> c = 0x20"

definition skipWS :: "jsstring \<Rightarrow> jsstring" where
  "skipWS s = dropWhile isJSONWhiteSpace s"

definition hexValue :: "jschar \<Rightarrow> nat option" where
  "hexValue c =
     (if 0x30 \<le> c \<and> c \<le> 0x39 then Some (unat c - 48)
      else if 0x61 \<le> c \<and> c \<le> 0x66 then Some (unat c - 87)
      else if 0x41 \<le> c \<and> c \<le> 0x46 then Some (unat c - 55)
      else None)"

definition hex4 :: "jschar \<Rightarrow> jschar \<Rightarrow> jschar \<Rightarrow> jschar \<Rightarrow> jschar option" where
  "hex4 a b c d =
     (case (hexValue a, hexValue b, hexValue c, hexValue d) of
        (Some p, Some q, Some r, Some s) \<Rightarrow> Some (of_nat (((p * 16 + q) * 16 + r) * 16 + s))
      | _ \<Rightarrow> None)"

text \<open>The character that a two-character escape \<^verbatim>\<open>\c\<close> stands for.\<close>

definition unescapeChar :: "jschar \<Rightarrow> jschar option" where
  "unescapeChar e =
     (if e = 0x22 then Some 0x22
      else if e = 0x5C then Some 0x5C
      else if e = 0x2F then Some 0x2F
      else if e = 0x62 then Some 0x08
      else if e = 0x66 then Some 0x0C
      else if e = 0x6E then Some 0x0A
      else if e = 0x72 then Some 0x0D
      else if e = 0x74 then Some 0x09
      else None)"

definition consChar :: "jschar \<Rightarrow> (jsstring \<times> jsstring) option \<Rightarrow> (jsstring \<times> jsstring) option" where
  "consChar c r = (case r of None \<Rightarrow> None | Some (s, rest) \<Rightarrow> Some (c # s, rest))"

text \<open>
  The characters of a string literal after its opening quote, up to the closing quote:
  the decoded string and the text after the closing quote. A raw control character, an
  unknown escape and a missing closing quote are syntax errors (\<open>None\<close>).
\<close>

fun parseChars :: "jsstring \<Rightarrow> (jsstring \<times> jsstring) option" where
  "parseChars [] = None"
| "parseChars (c # cs) =
     (if c = 0x22 then Some ([], cs)
      else if c = 0x5C then
        (case cs of
           [] \<Rightarrow> None
         | e # es \<Rightarrow>
             if e = 0x75 then
               (case es of
                  h1 # h2 # h3 # h4 # r \<Rightarrow>
                    (case hex4 h1 h2 h3 h4 of
                       None \<Rightarrow> None
                     | Some u \<Rightarrow> consChar u (parseChars r))
                | _ \<Rightarrow> None)
             else
               (case unescapeChar e of
                  None \<Rightarrow> None
                | Some u \<Rightarrow> consChar u (parseChars es)))
      else if c < 0x20 then None
      else consChar c (parseChars cs))"

text \<open>
  A number literal of the JSON grammar: an optional minus sign, \<^verbatim>\<open>0\<close> or digits that do
  not begin with \<^verbatim>\<open>0\<close>, an optional fraction (a point and at least one digit), an
  optional exponent (\<^verbatim>\<open>e\<close> or \<^verbatim>\<open>E\<close>, an optional sign, at least one digit). Its value is
  the Number value of the decimal.
\<close>

definition isDigit :: "jschar \<Rightarrow> bool" where
  "isDigit c \<longleftrightarrow> 0x30 \<le> c \<and> c \<le> 0x39"

definition digitsValue :: "jsstring \<Rightarrow> nat" where
  "digitsValue ds = foldl (\<lambda>n c. 10 * n + (unat c - 48)) 0 ds"

definition spanDigits :: "jsstring \<Rightarrow> jsstring \<times> jsstring" where
  "spanDigits s = (takeWhile isDigit s, dropWhile isDigit s)"

definition parseInteger :: "jsstring \<Rightarrow> (jsstring \<times> jsstring) option" where
  "parseInteger s =
     (case s of
        [] \<Rightarrow> None
      | c # cs \<Rightarrow>
          if c = 0x30 then Some ([c], cs)
          else if isDigit c then Some (spanDigits s)
          else None)"

definition parseFraction :: "jsstring \<Rightarrow> (jsstring \<times> jsstring) option" where
  "parseFraction s =
     (case s of
        [] \<Rightarrow> Some ([], s)
      | c # cs \<Rightarrow>
          if c = 0x2E then
            (if fst (spanDigits cs) = [] then None else Some (spanDigits cs))
          else Some ([], s))"

definition parseExponent :: "jsstring \<Rightarrow> (int \<times> jsstring) option" where
  "parseExponent s =
     (case s of
        [] \<Rightarrow> Some (0, s)
      | c # cs \<Rightarrow>
          if c = 0x65 \<or> c = 0x45 then
            (let negative = (take 1 cs = [0x2D]);
                 r = (if take 1 cs = [0x2D] \<or> take 1 cs = [0x2B] then drop 1 cs else cs)
             in if fst (spanDigits r) = [] then None
                else Some (if negative then - int (digitsValue (fst (spanDigits r)))
                           else int (digitsValue (fst (spanDigits r))),
                           snd (spanDigits r)))
          else Some (0, s))"

definition parseNumber :: "jsstring \<Rightarrow> (double \<times> jsstring) option" where
  "parseNumber s =
     (let sign = (take 1 s = [0x2D])
      in case parseInteger (if sign then drop 1 s else s) of
           None \<Rightarrow> None
         | Some (ip, s2) \<Rightarrow>
             (case parseFraction s2 of
                None \<Rightarrow> None
              | Some (fp, s3) \<Rightarrow>
                  (case parseExponent s3 of
                     None \<Rightarrow> None
                   | Some (ex, s4) \<Rightarrow>
                       Some (decimalToDouble sign (digitsValue (ip @ fp)) (ex - int (length fp)),
                             s4))))"

text \<open>
  The properties of an object in the order of its own property keys: first the keys that
  are array indices (the decimal form of an integer from 0 to \<open>2 ^ 32 - 2\<close>) in ascending
  numeric order, then the other keys in the order of their creation.
\<close>

definition isArrayIndex :: "jsstring \<Rightarrow> bool" where
  "isArrayIndex k \<longleftrightarrow>
     k \<noteq> [] \<and> list_all isDigit k \<and> (k = [0x30] \<or> hd k \<noteq> 0x30) \<and> digitsValue k < 4294967295"

fun insertIndexed :: "jsstring \<Rightarrow> json \<Rightarrow> (jsstring \<times> json) list \<Rightarrow> (jsstring \<times> json) list" where
  "insertIndexed k v [] = [(k, v)]"
| "insertIndexed k v ((k', v') # kvs) =
     (if isArrayIndex k' \<and> digitsValue k' < digitsValue k then (k', v') # insertIndexed k v kvs
      else (k, v) # (k', v') # kvs)"

text \<open>
  Creating a property: a key that the object has already gets the new value where it
  stands; a new key that is an array index goes to its place among the array indices,
  any other new key to the end.
\<close>

definition defineProperty :: "jsstring \<Rightarrow> json \<Rightarrow> (jsstring \<times> json) list \<Rightarrow> (jsstring \<times> json) list" where
  "defineProperty k v kvs =
     (if k \<in> set (map fst kvs) then map (\<lambda>kv. if fst kv = k then (k, v) else kv) kvs
      else if isArrayIndex k then insertIndexed k v kvs
      else kvs @ [(k, v)])"

text \<open>The object of a member list: its properties are created in text order.\<close>

definition makeObject :: "(jsstring \<times> json) list \<Rightarrow> json" where
  "makeObject kvs = JObj (foldl (\<lambda>acc kv. defineProperty (fst kv) (snd kv) acc) [] kvs)"

text \<open>
  Recursive descent over the text. The first argument bounds the number of nested calls;
  \<open>JSON_parse\<close> starts with more than the length of the text, which no parse uses up.
\<close>

fun parseValue :: "nat \<Rightarrow> jsstring \<Rightarrow> (json \<times> jsstring) option"
  and parseElements :: "nat \<Rightarrow> jsstring \<Rightarrow> (json list \<times> jsstring) option"
  and parseMembers :: "nat \<Rightarrow> jsstring \<Rightarrow> ((jsstring \<times> json) list \<times> jsstring) option"
where
  "parseValue 0 s = None"
| "parseValue (Suc n) s =
     (case skipWS s of
        [] \<Rightarrow> None
      | c # cs \<Rightarrow>
          if c = 0x22 then
            (case parseChars cs of None \<Rightarrow> None | Some (str, r) \<Rightarrow> Some (JStr str, r))
          else if c = 0x5B then
            (case skipWS cs of
               [] \<Rightarrow> None
             | d # ds \<Rightarrow>
                 if d = 0x5D then Some (JArr [], ds)
                 else (case parseElements n cs of
                         None \<Rightarrow> None
                       | Some (vs, r) \<Rightarrow> Some (JArr vs, r)))
          else if c = 0x7B then
            (case skipWS cs of
               [] \<Rightarrow> None
             | d # ds \<Rightarrow>
                 if d = 0x7D then Some (JObj [], ds)
                 else (case parseMembers n cs of
                         None \<Rightarrow> None
                       | Some (kvs, r) \<Rightarrow> Some (makeObject kvs, r)))
          else if take 4 (c # cs) = js ''null'' then Some (JNull, drop 4 (c # cs))
          else if take 4 (c # cs) = js ''true'' then Some (JBool True, drop 4 (c # cs))
          else if take 5 (c # cs) = js ''false'' then Some (JBool False, drop 5 (c # cs))
          else if c = 0x2D \<or> isDigit c then
            (case parseNumber (c # cs) of None \<Rightarrow> None | Some (x, r) \<Rightarrow> Some (JNum x, r))
          else None)"
| "parseElements 0 s = None"
| "parseElements (Suc n) s =
     (case parseValue n s of
        None \<Rightarrow> None
      | Some (v, r) \<Rightarrow>
          (case skipWS r of
             [] \<Rightarrow> None
           | c # cs \<Rightarrow>
               if c = 0x2C then
                 (case parseElements n cs of
                    None \<Rightarrow> None
                  | Some (vs, r') \<Rightarrow> Some (v # vs, r'))
               else if c = 0x5D then Some ([v], cs)
               else None))"
| "parseMembers 0 s = None"
| "parseMembers (Suc n) s =
     (case skipWS s of
        [] \<Rightarrow> None
      | c # cs \<Rightarrow>
          if c = 0x22 then
            (case parseChars cs of
               None \<Rightarrow> None
             | Some (k, r) \<Rightarrow>
                 (case skipWS r of
                    [] \<Rightarrow> None
                  | d # ds \<Rightarrow>
                      if d = 0x3A then
                        (case parseValue n ds of
                           None \<Rightarrow> None
                         | Some (v, r2) \<Rightarrow>
                             (case skipWS r2 of
                                [] \<Rightarrow> None
                              | e # es \<Rightarrow>
                                  if e = 0x2C then
                                    (case parseMembers n es of
                                       None \<Rightarrow> None
                                     | Some (kvs, r3) \<Rightarrow> Some ((k, v) # kvs, r3))
                                  else if e = 0x7D then Some ([(k, v)], es)
                                  else None))
                      else None))
          else None)"

text \<open>\<^verbatim>\<open>JSON.parse\<close>: one value, then nothing but white space; \<open>None\<close> is a SyntaxError.\<close>

definition JSON_parse :: "jsstring \<Rightarrow> json option" where
  "JSON_parse s =
     (case parseValue (Suc (length s)) s of
        None \<Rightarrow> None
      | Some (v, r) \<Rightarrow> if skipWS r = [] then Some v else None)"

section \<open>The storage backend\<close>

text \<open>
  \<^verbatim>\<open>localStorage\<close>: string keys to string values. \<^verbatim>\<open>setItem\<close> throws a
  QuotaExceededError when the store would grow beyond its quota; the limit is the
  browser's own, so it is a field of the backend. \<open>setItemCalls\<close> counts the calls of
  \<^verbatim>\<open>setItem\<close>, so that "persists once" can be stated.
\<close>

datatype DOMException = QuotaExceededError

record localStorage =
  items :: "(jsstring \<times> jsstring) list"
  quota :: nat
  setItemCalls :: nat

definition usage :: "(jsstring \<times> jsstring) list \<Rightarrow> nat" where
  "usage al = sum_list (map (\<lambda>kv. length (fst kv) + length (snd kv)) al)"

definition getItem :: "jsstring \<Rightarrow> localStorage \<Rightarrow> jsstring option" where
  "getItem k ls = map_of (items ls) k"

definition setItem :: "jsstring \<Rightarrow> jsstring \<Rightarrow> localStorage \<Rightarrow> DOMException option \<times> localStorage" where
  "setItem k v ls =
     (let ls' = ls\<lparr>setItemCalls := Suc (setItemCalls ls)\<rparr>;
          al = AList.update k v (items ls)
      in if quota ls < usage al then (Some QuotaExceededError, ls')
         else (None, ls'\<lparr>items := al\<rparr>))"

section \<open>TaskManager (script.js)\<close>

text \<open>
  A task of the simple variant. The fields \<^verbatim>\<open>id\<close> and \<^verbatim>\<open>text\<close> are written \<open>id'\<close> and
  \<open>text'\<close>.
\<close>

record task =
  id' :: jsstring
  text' :: jsstring
  completed :: bool
  createdAt :: jsstring

text \<open>
  The object: its task array, the current filter, the browser's storage, and the
  notifications shown so far (newest first). What a method does to the DOM only
  (\<^verbatim>\<open>render\<close>, \<^verbatim>\<open>updateStats\<close>, \<^verbatim>\<open>updateFilterButtons\<close>) is left out.
\<close>

record state =
  tasks :: "task list"
  currentFilter :: jsstring
  storage :: localStorage
  notifications :: "(jsstring \<times> jsstring) list"

text \<open>What a method returns to its caller.\<close>

datatype jsval = Undefined | Boolean bool | Number int

definition taskJSON :: "task \<Rightarrow> json" where
  "taskJSON t =
     JObj [(js ''id'', JStr (id' t)), (js ''text'', JStr (text' t)),
           (js ''completed'', JBool (completed t)), (js ''createdAt'', JStr (createdAt t))]"

definition showNotification :: "jsstring \<Rightarrow> jsstring \<Rightarrow> state \<Rightarrow> state" where
  "showNotification message kind s = s\<lparr>notifications := (message, kind) # notifications s\<rparr>"

text \<open>
  \<^verbatim>\<open>loadTasks\<close>: the parsed value of the stored text; the empty array when nothing (or the
  empty string, which is falsy) is stored and when the text does not parse.
\<close>

definition loadTasks :: "localStorage \<Rightarrow> json" where
  "loadTasks ls =
     (case getItem (js ''flowtask-tasks'') ls of
        None \<Rightarrow> JArr []
      | Some stored \<Rightarrow>
          if stored = [] then JArr []
          else (case JSON_parse stored of None \<Rightarrow> JArr [] | Some v \<Rightarrow> v))"

definition saveTasks :: "state \<Rightarrow> state" where
  "saveTasks s =
     (case setItem (js ''flowtask-tasks'') (JSON_stringify (JArr (map taskJSON (tasks s)))) (storage s) of
        (None, ls) \<Rightarrow> s\<lparr>storage := ls\<rparr>
      | (Some e, ls) \<Rightarrow> showNotification (js ''Error saving tasks'') (js ''error'') (s\<lparr>storage := ls\<rparr>))"



definition validateTask :: "jsstring \<Rightarrow> state \<Rightarrow> bool \<times> state" where
  "validateTask txt s =
     (let trimmed = trim txt
      in if trimmed = [] then
           (False, showNotification (js ''Task cannot be empty'') (js ''error'') s)
         else if 100 < length trimmed then
           (False, showNotification (js ''Task must be less than 100 characters'') (js ''error'') s)
         else (True, s))"

text \<open>
  \<^verbatim>\<open>addTask\<close>. \<open>now\<close> is what \<^verbatim>\<open>Date.now()\<close> returns and \<open>stamp\<close> what
  \<^verbatim>\<open>new Date().toISOString()\<close> returns at the call.
\<close>

definition addTask :: "int \<Rightarrow> jsstring \<Rightarrow> jsstring \<Rightarrow> state \<Rightarrow> jsval \<times> state" where
  "addTask now stamp txt s =
     (case validateTask txt s of
        (False, s') \<Rightarrow> (Boolean False, s')
      | (True, s') \<Rightarrow>
          (let newTask = \<lparr>id' = toString now, text' = trim txt, completed = False, createdAt = stamp\<rparr>;
               s1 = s'\<lparr>tasks := newTask # tasks s'\<rparr>;
               s2 = saveTasks s1
           in (Boolean True, showNotification (js ''Task added successfully!'') (js ''success'') s2)))"

text \<open>
  \<^verbatim>\<open>find\<close> returns the first task with the id, and the assignment changes that object
  where it stands in the array.
\<close>

fun updateFirst :: "('a \<Rightarrow> bool) \<Rightarrow> ('a \<Rightarrow> 'a) \<Rightarrow> 'a list \<Rightarrow> 'a list" where
  "updateFirst P f [] = []"
| "updateFirst P f (x # xs) = (if P x then f x # xs else x # updateFirst P f xs)"

definition toggleTask :: "jsstring \<Rightarrow> state \<Rightarrow> jsval \<times> state" where
  "toggleTask i s =
     (case find (\<lambda>t. id' t = i) (tasks s) of
        None \<Rightarrow> (Undefined, s)
      | Some task \<Rightarrow>
          (Undefined,
           saveTasks (s\<lparr>tasks := updateFirst (\<lambda>t. id' t = i)
                                   (\<lambda>t. t\<lparr>completed := \<not> completed t\<rparr>) (tasks s)\<rparr>)))"

definition editTask :: "jsstring \<Rightarrow> jsstring \<Rightarrow> state \<Rightarrow> jsval \<times> state" where
  "editTask i newText s =
     (case validateTask newText s of
        (False, s') \<Rightarrow> (Boolean False, s')
      | (True, s') \<Rightarrow>
          (case find (\<lambda>t. id' t = i) (tasks s') of
             None \<Rightarrow> (Boolean False, s')
           | Some task \<Rightarrow>
               (let s1 = s'\<lparr>tasks := updateFirst (\<lambda>t. id' t = i)
                                        (\<lambda>t. t\<lparr>text' := trim newText\<rparr>) (tasks s')\<rparr>;
                    s2 = saveTasks s1
                in (Boolean True, showNotification (js ''Task updated!'') (js ''success'') s2))))"

definition deleteTask :: "jsstring \<Rightarrow> state \<Rightarrow> jsval \<times> state" where
  "deleteTask i s =
     (let s1 = s\<lparr>tasks := filter (\<lambda>task. id' task \<noteq> i) (tasks s)\<rparr>;
          s2 = saveTasks s1
      in (Undefined, showNotification (js ''Task deleted'') (js ''info'') s2))"

text \<open>The method has no \<^verbatim>\<open>return\<close> statement: the count goes into the notification.\<close>

definition clearCompleted :: "state \<Rightarrow> jsval \<times> state" where
  "clearCompleted s =
     (let completedCount = length (filter (\<lambda>t. completed t) (tasks s));
          s1 = s\<lparr>tasks := filter (\<lambda>task. \<not> completed task) (tasks s)\<rparr>;
          s2 = saveTasks s1
      in (Undefined,
          showNotification
            (js ''Cleared '' @ toString (int completedCount) @ js '' completed tasks'')
            (js ''info'') s2))"

subsection \<open>Sequences of operations\<close>

datatype operation =
    Add int jsstring jsstring
  | Toggle jsstring
  | Edit jsstring jsstring
  | Delete jsstring
  | ClearCompleted

fun step :: "operation \<Rightarrow> state \<Rightarrow> jsval \<times> state" where
  "step (Add now stamp txt) s = addTask now stamp txt s"
| "step (Toggle i) s = toggleTask i s"
| "step (Edit i txt) s = editTask i txt s"
| "step (Delete i) s = deleteTask i s"
| "step ClearCompleted s = clearCompleted s"

fun run :: "operation list \<Rightarrow> state \<Rightarrow> state" where
  "run [] s = s"
| "run (operation # ops) s = run ops (snd (step operation s))"

section \<open>FlowTaskPro (app-core.js, app-views.js)\<close>

text \<open>
  A task of the Pro variant: the fields of the simple variant and three more. The task
  objects are created at two places with their properties in two orders, \<^verbatim>\<open>project\<close>
  before \<^verbatim>\<open>createdAt\<close> in \<^verbatim>\<open>addTask\<close> and \<^verbatim>\<open>createdAt\<close> before \<^verbatim>\<open>project\<close> in the seed
  tasks of \<^verbatim>\<open>loadTasks\<close>. \<^verbatim>\<open>JSON.stringify\<close> writes the properties in the order of their
  creation, so the order is part of the object.
\<close>

datatype propertyOrder = ProjectFirst | CreatedAtFirst

record ptask = task +
  priority :: jsstring
  dueDate :: "jsstring option"
  project :: jsstring
  propertyOrder :: propertyOrder

text \<open>
  \<^verbatim>\<open>sortTasks\<close> sorts the array it is given in place, and \<^verbatim>\<open>getFilteredTasks\<close> may hand
  it the object's own array, so arrays live in a store: \<open>arrays\<close> gives the contents of
  the array at an address, \<open>nextAddr\<close> is the next address to allocate, and
  \<open>tasks_pro\<close> is the address held in \<^verbatim>\<open>this.tasks\<close>. The fields shared with the simple
  variant carry the suffix \<open>_pro\<close>. The theme and what the methods do to the DOM only
  (\<^verbatim>\<open>renderTaskList\<close>, \<^verbatim>\<open>updateStats\<close>, \<^verbatim>\<open>updateNavigationBadges\<close>) are left out.
\<close>

type_synonym addr = nat

record pro_state =
  arrays :: "addr \<Rightarrow> ptask list"
  nextAddr :: addr
  tasks_pro :: addr
  currentView :: jsstring
  currentFilter_pro :: jsstring
  currentSort :: jsstring
  storage_pro :: localStorage
  notifications_pro :: "(jsstring \<times> jsstring) list"

definition alloc :: "ptask list \<Rightarrow> pro_state \<Rightarrow> addr \<times> pro_state" where
  "alloc xs s =
     (nextAddr s, s\<lparr>arrays := (arrays s)(nextAddr s := xs), nextAddr := Suc (nextAddr s)\<rparr>)"

text \<open>The task object as a value: its properties in the order of their creation.\<close>

definition ptaskJSON :: "ptask \<Rightarrow> json" where
  "ptaskJSON t =
     JObj ([(js ''id'', JStr (id' t)), (js ''text'', JStr (text' t)),
            (js ''completed'', JBool (completed t)), (js ''priority'', JStr (priority t)),
            (js ''dueDate'', (case dueDate t of None \<Rightarrow> JNull | Some d \<Rightarrow> JStr d))]
           @ (case propertyOrder t of
                ProjectFirst \<Rightarrow>
                  [(js ''project'', JStr (project t)), (js ''createdAt'', JStr (createdAt t))]
              | CreatedAtFirst \<Rightarrow>
                  [(js ''createdAt'', JStr (createdAt t)), (js ''project'', JStr (project t))]))"

definition showNotification_pro :: "jsstring \<Rightarrow> jsstring \<Rightarrow> pro_state \<Rightarrow> pro_state" where
  "showNotification_pro message kind s =
     s\<lparr>notifications_pro := (message, kind) # notifications_pro s\<rparr>"

text \<open>
  The two tasks that \<^verbatim>\<open>loadTasks\<close> returns when nothing is stored, with their properties
  in the order of the source text. \<open>stamp1\<close> and \<open>stamp2\<close> are the two readings of
  \<^verbatim>\<open>new Date().toISOString()\<close>, \<open>tomorrow\<close> is what \<^verbatim>\<open>getTomorrowDate()\<close> returns.
\<close>

definition seedTasks :: "jsstring \<Rightarrow> jsstring \<Rightarrow> jsstring \<Rightarrow> json" where
  "seedTasks stamp1 tomorrow stamp2 =
     JArr [JObj [(js ''id'', JStr (js ''1'')), (js ''text'', JStr (js ''Welcome to FlowTask Pro!'')),
                 (js ''completed'', JBool False), (js ''priority'', JStr (js ''high'')),
                 (js ''dueDate'', JNull), (js ''createdAt'', JStr stamp1),
                 (js ''project'', JStr (js ''Inbox''))],
           JObj [(js ''id'', JStr (js ''2'')), (js ''text'', JStr (js ''Create project presentation'')),
                 (js ''completed'', JBool False), (js ''priority'', JStr (js ''medium'')),
                 (js ''dueDate'', JStr tomorrow), (js ''createdAt'', JStr stamp2),
                 (js ''project'', JStr (js ''Work''))]]"

definition loadTasks_pro :: "jsstring \<Rightarrow> jsstring \<Rightarrow> jsstring \<Rightarrow> pro_state \<Rightarrow> json \<times> pro_state" where
  "loadTasks_pro stamp1 tomorrow stamp2 s =
     (case getItem (js ''flowtask-pro-tasks'') (storage_pro s) of
        None \<Rightarrow> (seedTasks stamp1 tomorrow stamp2, s)
      | Some stored \<Rightarrow>
          if stored = [] then (seedTasks stamp1 tomorrow stamp2, s)
          else (case JSON_parse stored of
                  None \<Rightarrow> (JArr [], showNotification_pro (js ''Error loading tasks'') (js ''error'') s)
                | Some v \<Rightarrow> (v, s)))"

definition saveTasks_pro :: "pro_state \<Rightarrow> pro_state" where
  "saveTasks_pro s =
     (case setItem (js ''flowtask-pro-tasks'')
             (JSON_stringify (JArr (map ptaskJSON (arrays s (tasks_pro s))))) (storage_pro s) of
        (None, ls) \<Rightarrow> s\<lparr>storage_pro := ls\<rparr>
      | (Some e, ls) \<Rightarrow>
          showNotification_pro (js ''Error saving tasks'') (js ''error'') (s\<lparr>storage_pro := ls\<rparr>))"

subsection \<open>The view: filter, then sort\<close>

text \<open>
  \<^verbatim>\<open>getFilteredTasks\<close>: \<^verbatim>\<open>filter\<close> builds a new array; without a matching case the
  result is \<^verbatim>\<open>this.tasks\<close> itself.
\<close>

definition getFilteredTasks_pro :: "pro_state \<Rightarrow> addr \<times> pro_state" where
  "getFilteredTasks_pro s =
     (let filtered = tasks_pro s
      in if currentFilter_pro s = js ''active'' then
           alloc (filter (\<lambda>task. \<not> completed task) (arrays s filtered)) s
         else if currentFilter_pro s = js ''completed'' then
           alloc (filter (\<lambda>task. completed task) (arrays s filtered)) s
         else if currentFilter_pro s = js ''high'' then
           alloc (filter (\<lambda>task. priority task = js ''high'') (arrays s filtered)) s
         else (filtered, s))"

text \<open>
  \<^verbatim>\<open>Array.prototype.sort\<close> with a comparison function. The function's result is a number
  or NaN (\<open>None\<close>), and NaN counts as \<open>0\<close>. The sort is stable (ECMAScript 2019):
  an element moves behind another one only when the comparison of the two is positive.
  With a consistent comparison function every stable sort gives the same array; the
  model inserts the elements from the right. (With an inconsistent one the order is the
  engine's choice.)
\<close>

definition sortCompare :: "('a \<Rightarrow> 'a \<Rightarrow> int option) \<Rightarrow> 'a \<Rightarrow> 'a \<Rightarrow> int" where
  "sortCompare comparefn x y = (case comparefn x y of None \<Rightarrow> 0 | Some v \<Rightarrow> v)"

fun insertSorted :: "('a \<Rightarrow> 'a \<Rightarrow> int option) \<Rightarrow> 'a \<Rightarrow> 'a list \<Rightarrow> 'a list" where
  "insertSorted comparefn x [] = [x]"
| "insertSorted comparefn x (y # ys) =
     (if 0 < sortCompare comparefn x y then y # insertSorted comparefn x ys else x # y # ys)"

definition Array_sort :: "('a \<Rightarrow> 'a \<Rightarrow> int option) \<Rightarrow> 'a list \<Rightarrow> 'a list" where
  "Array_sort comparefn xs = foldr (insertSorted comparefn) xs []"

text \<open>Subtraction of two numbers, either of which may be NaN.\<close>

definition numMinus :: "int option \<Rightarrow> int option \<Rightarrow> int option" where
  "numMinus x y = (case (x, y) of (Some a, Some b) \<Rightarrow> Some (a - b) | _ \<Rightarrow> None)"

text \<open>
  The lookup \<^verbatim>\<open>priorityOrder[p]\<close> as a number: \<^verbatim>\<open>undefined\<close> (and whatever the prototype
  holds under other names) is NaN in the subtraction.
\<close>

definition priorityOrder :: "jsstring \<Rightarrow> int option" where
  "priorityOrder p =
     (if p = js ''high'' then Some 3
      else if p = js ''medium'' then Some 2
      else if p = js ''low'' then Some 1
      else None)"

text \<open>
  \<^verbatim>\<open>sortTasks\<close>. \<open>parseDate\<close> is the time value of \<^verbatim>\<open>new Date(string)\<close> in milliseconds,
  \<open>None\<close> for an invalid date; it is the engine's, so it is a parameter. The array at
  \<open>a\<close> is sorted where it is and \<open>a\<close> is returned.
\<close>

definition sortTasks :: "(jsstring \<Rightarrow> int option) \<Rightarrow> addr \<Rightarrow> pro_state \<Rightarrow> addr \<times> pro_state" where
  "sortTasks parseDate a s =
     (if currentSort s = js ''newest'' then
        (a, s\<lparr>arrays := (arrays s)
               (a := Array_sort (\<lambda>x y. numMinus (parseDate (createdAt y)) (parseDate (createdAt x)))
                       (arrays s a))\<rparr>)
      else if currentSort s = js ''oldest'' then
        (a, s\<lparr>arrays := (arrays s)
               (a := Array_sort (\<lambda>x y. numMinus (parseDate (createdAt x)) (parseDate (createdAt y)))
                       (arrays s a))\<rparr>)
      else if currentSort s = js ''priority'' then
        (a, s\<lparr>arrays := (arrays s)
               (a := Array_sort (\<lambda>x y. numMinus (priorityOrder (priority y)) (priorityOrder (priority x)))
                       (arrays s a))\<rparr>)
      else (a, s))"

text \<open>
  \<^verbatim>\<open>renderTasks\<close>: the address of the array that is handed to \<^verbatim>\<open>renderTaskList\<close> (which
  writes to the DOM only), and the state afterwards.
\<close>

definition renderTasks :: "(jsstring \<Rightarrow> int option) \<Rightarrow> pro_state \<Rightarrow> addr \<times> pro_state" where
  "renderTasks parseDate s =
     (case getFilteredTasks_pro s of
        (filteredTasks, s1) \<Rightarrow> sortTasks parseDate filteredTasks s1)"

text \<open>\<^verbatim>\<open>renderDashboard\<close> reads the tasks and writes to the DOM only.\<close>

definition renderDashboard :: "pro_state \<Rightarrow> pro_state" where
  "renderDashboard s = s"

definition renderCurrentView :: "(jsstring \<Rightarrow> int option) \<Rightarrow> pro_state \<Rightarrow> pro_state" where
  "renderCurrentView parseDate s =
     (if currentView s = js ''dashboard'' then renderDashboard s
      else snd (renderTasks parseDate s))"

subsection \<open>The operations on tasks\<close>

definition validateTask_pro :: "jsstring \<Rightarrow> pro_state \<Rightarrow> bool \<times> pro_state" where
  "validateTask_pro txt s =
     (let trimmed = trim txt
      in if trimmed = [] then
           (False, showNotification_pro (js ''Task cannot be empty'') (js ''error'') s)
         else (True, s))"

text \<open>
  \<^verbatim>\<open>addTask\<close>, with the values of its optional parameters given by the caller
  (\<^verbatim>\<open>'medium'\<close>, \<^verbatim>\<open>null\<close> and \<^verbatim>\<open>'Inbox'\<close> when left out). \<^verbatim>\<open>unshift\<close> changes the array
  at \<open>tasks_pro\<close> in place.
\<close>

definition addTask_pro ::
  "(jsstring \<Rightarrow> int option) \<Rightarrow> int \<Rightarrow> jsstring \<Rightarrow> jsstring \<Rightarrow> jsstring \<Rightarrow> jsstring option \<Rightarrow> jsstring
     \<Rightarrow> pro_state \<Rightarrow> jsval \<times> pro_state" where
  "addTask_pro parseDate now stamp txt prio due proj s =
     (case validateTask_pro txt s of
        (False, s') \<Rightarrow> (Boolean False, s')
      | (True, s') \<Rightarrow>
          (let newTask = \<lparr>id' = toString now, text' = trim txt, completed = False,
                          createdAt = stamp, priority = prio, dueDate = due, project = proj,
                          propertyOrder = ProjectFirst\<rparr>;
               s1 = s'\<lparr>arrays := (arrays s')(tasks_pro s' := newTask # arrays s' (tasks_pro s'))\<rparr>;
               s2 = saveTasks_pro s1;
               s3 = renderCurrentView parseDate s2
           in (Boolean True,
               showNotification_pro (js ''Task added successfully!'') (js ''success'') s3)))"

definition toggleTask_pro :: "(jsstring \<Rightarrow> int option) \<Rightarrow> jsstring \<Rightarrow> pro_state \<Rightarrow> jsval \<times> pro_state" where
  "toggleTask_pro parseDate i s =
     (case find (\<lambda>t. id' t = i) (arrays s (tasks_pro s)) of
        None \<Rightarrow> (Undefined, s)
      | Some task \<Rightarrow>
          (let s1 = s\<lparr>arrays := (arrays s)
                         (tasks_pro s := updateFirst (\<lambda>t. id' t = i)
                              (\<lambda>t. t\<lparr>completed := \<not> completed t\<rparr>) (arrays s (tasks_pro s)))\<rparr>;
               s2 = saveTasks_pro s1
           in (Undefined, renderCurrentView parseDate s2)))"

text \<open>\<^verbatim>\<open>deleteTask\<close> puts a new, filtered array into \<^verbatim>\<open>this.tasks\<close>.\<close>

definition deleteTask_pro :: "(jsstring \<Rightarrow> int option) \<Rightarrow> jsstring \<Rightarrow> pro_state \<Rightarrow> jsval \<times> pro_state" where
  "deleteTask_pro parseDate i s =
     (case alloc (filter (\<lambda>task. id' task \<noteq> i) (arrays s (tasks_pro s))) s of
        (a, s0) \<Rightarrow>
          (let s1 = s0\<lparr>tasks_pro := a\<rparr>;
               s2 = saveTasks_pro s1;
               s3 = renderCurrentView parseDate s2
           in (Undefined, showNotification_pro (js ''Task deleted'') (js ''info'') s3)))"

section \<open>Example states\<close>

text \<open>
  The object of the simple variant as its constructor builds it on an empty storage, and
  a state with two tasks.
\<close>

definition emptyStorage :: localStorage where
  "emptyStorage = \<lparr>items = [], quota = 5000000, setItemCalls = 0\<rparr>"

definition initialState :: state where
  "initialState = \<lparr>tasks = [], currentFilter = js ''all'', storage = emptyStorage, notifications = []\<rparr>"

definition task1 :: task where
  "task1 = \<lparr>id' = js ''1700000000001'', text' = js ''Buy milk'', completed = False,
             createdAt = js ''2023-11-14T22:13:20.001Z''\<rparr>"

definition task2 :: task where
  "task2 = \<lparr>id' = js ''1700000000002'', text' = js ''Write report'', completed = True,
             createdAt = js ''2023-11-14T22:13:20.002Z''\<rparr>"

definition exampleState :: state where
  "exampleState = initialState\<lparr>tasks := [task2, task1]\<rparr>"

text \<open>A storage that takes nothing more, and the simple variant's object with one task on it.\<close>

definition fullStorage :: localStorage where
  "fullStorage = \<lparr>items = [], quota = 0, setItemCalls = 0\<rparr>"

definition fullState :: state where
  "fullState = \<lparr>tasks = [task1], currentFilter = js ''all'', storage = fullStorage, notifications = []\<rparr>"

text \<open>A sequence with one operation of each kind, for the example state.\<close>

definition exampleOps :: "operation list" where
  "exampleOps =
     [Add 1700000000003 (js ''2023-11-14T22:13:20.003Z'') (js ''  Call Bob ''),
      Toggle (js ''1700000000001''),
      Edit (js ''1700000000002'') (js ''Write the report  ''),
      Delete (js ''1700000000001''),
      ClearCompleted]"


text \<open>
  The Pro object as its constructor builds it on an empty storage: the two seed tasks,
  whose time stamps are one millisecond apart, the dashboard view, filter \<^verbatim>\<open>'all'\<close> and
  sort \<^verbatim>\<open>'newest'\<close>. \<open>exampleParseDate\<close> gives the time values of the two stamps.
\<close>

definition ptaskA :: ptask where
  "ptaskA = \<lparr>id' = js ''1'', text' = js ''Welcome to FlowTask Pro!'', completed = False,
              createdAt = js ''2025-01-01T09:00:00.000Z'', priority = js ''high'',
              dueDate = None, project = js ''Inbox'', propertyOrder = CreatedAtFirst\<rparr>"

definition ptaskB :: ptask where
  "ptaskB = \<lparr>id' = js ''2'', text' = js ''Create project presentation'', completed = False,
              createdAt = js ''2025-01-01T09:00:00.001Z'', priority = js ''medium'',
              dueDate = Some (js ''2025-01-02''), project = js ''Work'',
              propertyOrder = CreatedAtFirst\<rparr>"

definition exampleParseDate :: "jsstring \<Rightarrow> int option" where
  "exampleParseDate d =
     (if d = js ''2025-01-01T09:00:00.000Z'' then Some 1735722000000
      else if d = js ''2025-01-01T09:00:00.001Z'' then Some 1735722000001
      else None)"

definition seedState :: pro_state where
  "seedState =
     \<lparr>arrays = (\<lambda>a. [])(0 := [ptaskA, ptaskB]), nextAddr = 1, tasks_pro = 0,
      currentView = js ''dashboard'', currentFilter_pro = js ''all'', currentSort = js ''newest'',
      storage_pro = emptyStorage, notifications_pro = []\<rparr>"

text \<open>The same state with three tasks in its array, out of order.\<close>

definition unsortedState :: pro_state where
  "unsortedState = seedState\<lparr>arrays := (arrays seedState)(0 := [ptaskB, ptaskA, ptaskB])\<rparr>"

section \<open>Notions used in the claims\<close>

text \<open>
  The time stamps of the \<^verbatim>\<open>addTask\<close> calls of a sequence of operations, in the order of
  the calls.
\<close>

fun addedStamps :: "operation list \<Rightarrow> jsstring list" where
  "addedStamps [] = []"
| "addedStamps (Add now stamp txt # ops) = stamp # addedStamps ops"
| "addedStamps (operation # ops) = addedStamps ops"

text \<open>
  Every \<^verbatim>\<open>addTask\<close> of the sequence that succeeds reads a clock value whose decimal
  string is not the id of a task in the collection at that moment.
\<close>

fun clockFresh :: "operation list \<Rightarrow> state \<Rightarrow> bool" where
  "clockFresh [] s = True"
| "clockFresh (Add now stamp txt # ops) s =
     ((fst (addTask now stamp txt s) = Boolean False \<or> toString now \<notin> set (map id' (tasks s)))
      \<and> clockFresh ops (snd (addTask now stamp txt s)))"
| "clockFresh (operation # ops) s = clockFresh ops (snd (step operation s))"

text \<open>Every text is non-empty and equal to its own trimmed form.\<close>

definition textsTrimmed :: "'a task_scheme list \<Rightarrow> bool" where
  "textsTrimmed ts = list_all (\<lambda>t. text' t \<noteq> [] \<and> trim (text' t) = text' t) ts"


text \<open>
  Reading a loaded value as a task collection, each field by the name of its property, as
  the methods do: \<open>None\<close> when the value is not an array of task records.
\<close>

definition property :: "jsstring \<Rightarrow> json \<Rightarrow> json option" where
  "property k j = (case j of JObj kvs \<Rightarrow> map_of kvs k | _ \<Rightarrow> None)"

definition taskOfJSON :: "json \<Rightarrow> task option" where
  "taskOfJSON j =
     (case (property (js ''id'') j, property (js ''text'') j, property (js ''completed'') j,
            property (js ''createdAt'') j) of
        (Some (JStr i), Some (JStr t), Some (JBool c), Some (JStr d)) \<Rightarrow>
          Some \<lparr>id' = i, text' = t, completed = c, createdAt = d\<rparr>
      | _ \<Rightarrow> None)"

definition tasksOfJSON :: "json \<Rightarrow> task list option" where
  "tasksOfJSON j = (case j of JArr xs \<Rightarrow> those (map taskOfJSON xs) | _ \<Rightarrow> None)"

definition dueDateOfJSON :: "json \<Rightarrow> jsstring option option" where
  "dueDateOfJSON j = (case j of JNull \<Rightarrow> Some None | JStr d \<Rightarrow> Some (Some d) | _ \<Rightarrow> None)"

text \<open>Which of \<^verbatim>\<open>project\<close> and \<^verbatim>\<open>createdAt\<close> comes first among the properties.\<close>

definition propertyOrderOfJSON :: "json \<Rightarrow> propertyOrder option" where
  "propertyOrderOfJSON j =
     (case j of
        JObj kvs \<Rightarrow>
          (let ks = filter (\<lambda>k. k = js ''project'' \<or> k = js ''createdAt'') (map fst kvs)
           in if ks = [js ''project'', js ''createdAt''] then Some ProjectFirst
              else if ks = [js ''createdAt'', js ''project''] then Some CreatedAtFirst
              else None)
      | _ \<Rightarrow> None)"

definition ptaskOfJSON :: "json \<Rightarrow> ptask option" where
  "ptaskOfJSON j =
     (case (taskOfJSON j, property (js ''priority'') j,
            Option.bind (property (js ''dueDate'') j) dueDateOfJSON, property (js ''project'') j,
            propertyOrderOfJSON j) of
        (Some t, Some (JStr p), Some due, Some (JStr pr), Some ord) \<Rightarrow>
          Some \<lparr>id' = id' t, text' = text' t, completed = completed t, createdAt = createdAt t,
                priority = p, dueDate = due, project = pr, propertyOrder = ord\<rparr>
      | _ \<Rightarrow> None)"

definition ptasksOfJSON :: "json \<Rightarrow> ptask list option" where
  "ptasksOfJSON j = (case j of JArr xs \<Rightarrow> those (map ptaskOfJSON xs) | _ \<Rightarrow> None)"

section \<open>Properties of the string functions\<close>

lemma dropWhile_rev_suffix:
  assumes "dropWhile P t = t"
  shows "dropWhile P (rev (dropWhile P (rev t))) = rev (dropWhile P (rev t))"
proof (cases "dropWhile P (rev t) = []")
  case True
  then show ?thesis by (simp only: rev.simps dropWhile.simps)
next
  case False
  then have tne: "t \<noteq> []" by auto
  with assms have nh: "\<not> P (hd t)"
    by (metis hd_dropWhile)
  obtain ys where ys: "rev t = ys @ dropWhile P (rev t)"
    by (metis takeWhile_dropWhile_id)
  from False ys have "last (dropWhile P (rev t)) = last (rev t)"
    by (metis last_appendR)
  also have "\<dots> = hd t" using tne by (simp add: last_rev)
  finally have "hd (rev (dropWhile P (rev t))) = hd t"
    using False by (simp add: hd_rev)
  with nh False show ?thesis
    by (metis dropWhile_eq_self_iff rev_is_Nil_conv) 
qed

lemma trim_ws_append: 
  assumes w1: "\<forall>c\<in>set w1. isWhiteSpace c" and w2: "\<forall>c\<in>set w2. isWhiteSpace c"
  shows "trim (w1 @ t @ w2) = trim t"
proof -
  have a: "dropWhile isWhiteSpace (w1 @ t @ w2) = dropWhile isWhiteSpace (t @ w2)"
    using w1 by (simp add: dropWhile_append2)
  have b: "dropWhile isWhiteSpace (rev (dropWhile isWhiteSpace (t @ w2)))
         = dropWhile isWhiteSpace (rev (dropWhile isWhiteSpace t))"
  proof (cases "\<forall>c\<in>set t. isWhiteSpace c")
    case True
    then have "dropWhile isWhiteSpace (t @ w2) = []" "dropWhile isWhiteSpace t = []"
      using w2 by auto
    then show ?thesis by (simp only:)
  next
    case False
    then obtain x where "x \<in> set t" "\<not> isWhiteSpace x" by blast
    then have "dropWhile isWhiteSpace (t @ w2) = dropWhile isWhiteSpace t @ w2"
      by (simp add: dropWhile_append1)
    moreover have "\<And>x. x \<in> set (rev w2) \<Longrightarrow> isWhiteSpace x" using w2 by simp
    ultimately show ?thesis by (simp del: set_rev)
  qed
  show ?thesis unfolding trim_def a b ..
qed

lemma trim_spaces: "trim (js ''   '') = []"
  by (simp add: js_def trim_def isWhiteSpace_def)

lemma trim_long: "trim (replicate 101 0x61) = replicate 101 0x61"
  by (simp add: trim_def isWhiteSpace_def)

lemma trim_hundred: "trim (replicate 100 0x61) = replicate 100 0x61"
  by (simp add: trim_def isWhiteSpace_def)

lemma space_is_ws: "\<forall>c\<in>set (js ''  ''). isWhiteSpace c"
  by (simp add: js_def isWhiteSpace_def)

lemma js_priorities_distinct:
  "js ''high'' \<noteq> js ''medium''" "js ''high'' \<noteq> js ''low''" "js ''medium'' \<noteq> js ''low''"
  by (simp_all add: js_def)

lemma js_sorts_distinct:
  "js ''newest'' \<noteq> js ''oldest''" "js ''newest'' \<noteq> js ''priority''" "js ''oldest'' \<noteq> js ''priority''"
  by (simp_all add: js_def)

lemma date_literals_differ: "js ''2025-01-01T09:00:00.000Z'' \<noteq> js ''2025-01-01T09:00:00.001Z''"
  by (simp add: js_def)

lemma filter_literals:
  "js ''all'' \<noteq> js ''active''" "js ''all'' \<noteq> js ''completed''" "js ''all'' \<noteq> js ''high''"
  "js ''active'' \<noteq> js ''completed''" "js ''active'' \<noteq> js ''high''" "js ''completed'' \<noteq> js ''high''"
  by (simp_all add: js_def)

lemma mode_literals:
  "js ''highPriority'' \<noteq> js ''active''" "js ''highPriority'' \<noteq> js ''completed''"
  "js ''highPriority'' \<noteq> js ''high''" "js ''highPriority'' \<noteq> js ''all''"
  by (simp_all add: js_def)

lemma msgs_differ: "js ''Task cannot be empty'' \<noteq> js ''Task must be less than 100 characters''"
  by (simp add: js_def)

lemma trim_idem: "trim (trim s) = trim s"
  unfolding trim_def by (simp add: dropWhile_rev_suffix)

lemma trim_no_leading: "dropWhile isWhiteSpace (trim s) = trim s"
  unfolding trim_def by (simp add: dropWhile_rev_suffix)

lemma trim_no_trailing: "dropWhile isWhiteSpace (rev (trim s)) = rev (trim s)"
  unfolding trim_def by simp

lemma trimmed_ends:
  assumes "trim t = t" "t \<noteq> []"
  shows "\<not> isWhiteSpace (hd t)" "\<not> isWhiteSpace (last t)"
proof -
  have "dropWhile isWhiteSpace t = t" using trim_no_leading [of t] assms by simp
  then show "\<not> isWhiteSpace (hd t)" using assms(2) by (metis hd_dropWhile)
  have "dropWhile isWhiteSpace (rev t) = rev t" using trim_no_trailing [of t] assms by simp
  then have "\<not> isWhiteSpace (hd (rev t))" using assms(2) by (metis hd_dropWhile rev_is_Nil_conv)
  then show "\<not> isWhiteSpace (last t)" using assms(2) by (simp add: hd_rev)
qed

lemma toString_examples:
  "toString 1700000000000 = js ''1700000000000''"
  "toString 1700000000003 = js ''1700000000003''"
  by (simp_all add: toString_def digits.simps js_def)

lemma trim_examples:
  "trim (js ''a'') = js ''a''" "trim (js ''b'') = js ''b''"
  "trim (js ''  Call Bob '') = js ''Call Bob''"
  "trim (js ''Write the report  '') = js ''Write the report''"
  "trim (js ''Buy milk'') = js ''Buy milk''"
  "trim (js ''Write report'') = js ''Write report''"
  "trim (js ''Welcome to FlowTask Pro!'') = js ''Welcome to FlowTask Pro!''"
  "trim (js ''Create project presentation'') = js ''Create project presentation''"
  by (simp_all add: trim_def js_def isWhiteSpace_def)

lemma id_literals:
  "js ''1700000000003'' \<noteq> js ''1700000000001''" "js ''1700000000003'' \<noteq> js ''1700000000002''"
  "js ''1700000000001'' \<noteq> js ''1700000000002''"
  "js ''1700000000003'' \<noteq> js ''1''" "js ''1700000000003'' \<noteq> js ''2''" "js ''1'' \<noteq> js ''2''"
  by (simp_all add: js_def)

lemma nonempty_literals:
  "js ''a'' \<noteq> []" "js ''b'' \<noteq> []" "js ''Call Bob'' \<noteq> []" "js ''Write the report'' \<noteq> []"
  "js ''Buy milk'' \<noteq> []" "js ''Write report'' \<noteq> []"
  "js ''Welcome to FlowTask Pro!'' \<noteq> []" "js ''Create project presentation'' \<noteq> []"
  "length (js ''a'') \<le> 100" "length (js ''b'') \<le> 100"
  "length (js ''Call Bob'') \<le> 100" "length (js ''Write the report'') \<le> 100"
  by (simp_all add: js_def)

section \<open>Properties of the operations of TaskManager\<close>

lemma showNotification_fields [simp]:
  "tasks (showNotification m k s) = tasks s"
  "storage (showNotification m k s) = storage s"
  "currentFilter (showNotification m k s) = currentFilter s"
  "notifications (showNotification m k s) = (m, k) # notifications s"
  by (simp_all add: showNotification_def)

lemma showNotification_neq: "showNotification m k s \<noteq> s"
proof
  assume "showNotification m k s = s"
  then have "notifications (showNotification m k s) = notifications s" by simp
  then show False by simp
qed

lemma showNotification_inj: "showNotification m k s = showNotification m' k' s \<longleftrightarrow> m = m' \<and> k = k'"
proof
  assume "showNotification m k s = showNotification m' k' s"
  then have "notifications (showNotification m k s) = notifications (showNotification m' k' s)" by simp
  then show "m = m' \<and> k = k'" by simp
qed simp

lemma validateTask_cases:
  "validateTask txt s =
     (if trim txt = [] then (False, showNotification (js ''Task cannot be empty'') (js ''error'') s)
      else if 100 < length (trim txt) then (False, showNotification (js ''Task must be less than 100 characters'') (js ''error'') s)
      else (True, s))"
  by (simp add: validateTask_def Let_def)

lemma saveTasks_fields [simp]:
  "tasks (saveTasks s) = tasks s"
  "currentFilter (saveTasks s) = currentFilter s"
  by (simp_all add: saveTasks_def showNotification_def split: prod.splits option.splits)

lemma setItem_calls: "setItemCalls (snd (setItem k v ls)) = Suc (setItemCalls ls)"
  by (simp add: setItem_def Let_def)

lemma saveTasks_calls [simp]:
  "setItemCalls (storage (saveTasks s)) = Suc (setItemCalls (storage s))"
  by (simp add: saveTasks_def setItem_def Let_def showNotification_def)

lemma addTask_accept:
  "trim txt \<noteq> [] \<Longrightarrow> length (trim txt) \<le> 100 \<Longrightarrow>
   addTask now stamp txt s =
     (Boolean True,
      showNotification (js ''Task added successfully!'') (js ''success'')
        (saveTasks (s\<lparr>tasks := \<lparr>id' = toString now, text' = trim txt, completed = False,
                                 createdAt = stamp\<rparr> # tasks s\<rparr>)))"
  by (simp add: addTask_def validateTask_cases Let_def)

lemma editTask_accept:
  "trim txt \<noteq> [] \<Longrightarrow> length (trim txt) \<le> 100 \<Longrightarrow> find (\<lambda>t. id' t = i) (tasks s) = Some t0 \<Longrightarrow>
   editTask i txt s =
     (Boolean True,
      showNotification (js ''Task updated!'') (js ''success'')
        (saveTasks (s\<lparr>tasks := updateFirst (\<lambda>t. id' t = i) (\<lambda>t. t\<lparr>text' := trim txt\<rparr>) (tasks s)\<rparr>)))"
  by (simp add: editTask_def validateTask_cases Let_def)

lemma editTask_missing:
  "trim txt \<noteq> [] \<Longrightarrow> length (trim txt) \<le> 100 \<Longrightarrow> find (\<lambda>t. id' t = i) (tasks s) = None \<Longrightarrow>
   editTask i txt s = (Boolean False, s)"
  by (simp add: editTask_def validateTask_cases Let_def)

lemma editTask_reject:
  "trim txt = [] \<or> 100 < length (trim txt) \<Longrightarrow> editTask i txt s = (Boolean False, snd (validateTask txt s))"
  by (auto simp add: editTask_def validateTask_cases Let_def)

lemma updateFirst_map:
  "(\<And>x. g (f x) = g x) \<Longrightarrow> map g (updateFirst P f xs) = map g xs"
  by (induction xs) simp_all

lemma updateFirst_find_None: "find P xs = None \<Longrightarrow> updateFirst P f xs = xs"
  by (induction xs) (simp_all split: if_splits)

lemma set_updateFirst: "set (updateFirst P f xs) \<subseteq> set xs \<union> f ` set xs"
  by (induction xs) auto

lemma tasks_addTask:
  "tasks (snd (addTask now stamp txt s)) =
     (if trim txt = [] \<or> 100 < length (trim txt) then tasks s
      else \<lparr>id' = toString now, text' = trim txt, completed = False, createdAt = stamp\<rparr> # tasks s)"
  by (simp add: addTask_def validateTask_cases Let_def)

lemma fst_addTask:
  "fst (addTask now stamp txt s) = Boolean (\<not> (trim txt = [] \<or> 100 < length (trim txt)))"
  by (simp add: addTask_def validateTask_cases Let_def)

lemma tasks_toggleTask:
  "tasks (snd (toggleTask i s)) =
     updateFirst (\<lambda>t. id' t = i) (\<lambda>t. t\<lparr>completed := \<not> completed t\<rparr>) (tasks s)"
  by (simp add: toggleTask_def updateFirst_find_None split: option.splits)

lemma tasks_editTask:
  "tasks (snd (editTask i txt s)) =
     (if trim txt = [] \<or> 100 < length (trim txt) then tasks s
      else updateFirst (\<lambda>t. id' t = i) (\<lambda>t. t\<lparr>text' := trim txt\<rparr>) (tasks s))"
  by (simp add: editTask_def validateTask_cases Let_def updateFirst_find_None split: option.splits)

lemma tasks_deleteTask:
  "tasks (snd (deleteTask i s)) = filter (\<lambda>t. id' t \<noteq> i) (tasks s)"
  by (simp add: deleteTask_def Let_def)

lemma tasks_clearCompleted:
  "tasks (snd (clearCompleted s)) = filter (\<lambda>t. \<not> completed t) (tasks s)"
  by (simp add: clearCompleted_def Let_def)

lemma distinct_step:
  assumes "distinct (map id' (tasks s))"
    and "\<And>now stamp txt. operation = Add now stamp txt \<Longrightarrow>
           fst (addTask now stamp txt s) = Boolean False \<or> toString now \<notin> set (map id' (tasks s))"
  shows "distinct (map id' (tasks (snd (step operation s))))"
proof (cases "operation")
  case (Add now stamp newText)
  then show ?thesis using assms by (auto simp add: tasks_addTask fst_addTask)
next
  case (Toggle i)
  have "map id' (updateFirst (\<lambda>t. id' t = i) (\<lambda>t. t\<lparr>completed := \<not> completed t\<rparr>) (tasks s)) = map id' (tasks s)"
    by (rule updateFirst_map) simp
  then show ?thesis using Toggle assms(1) by (simp add: tasks_toggleTask)
next
  case (Edit i newText)
  have "map id' (updateFirst (\<lambda>t. id' t = i) (\<lambda>t. t\<lparr>text' := trim newText\<rparr>) (tasks s)) = map id' (tasks s)"
    by (rule updateFirst_map) simp
  then show ?thesis using Edit assms(1) by (simp add: tasks_editTask)
next
  case (Delete i)
  then show ?thesis using assms(1) by (simp add: tasks_deleteTask distinct_map_filter)
next
  case ClearCompleted
  then show ?thesis using assms(1) by (simp add: tasks_clearCompleted distinct_map_filter)
qed

lemma distinct_run:
  "distinct (map id' (tasks s)) \<Longrightarrow> clockFresh ops s \<Longrightarrow> distinct (map id' (tasks (run ops s)))"
proof (induction ops arbitrary: s)
  case Nil
  then show ?case by simp
next
  case (Cons operation ops)
  have d: "distinct (map id' (tasks (snd (step operation s))))"
    using Cons.prems by (intro distinct_step) auto
  have f: "clockFresh ops (snd (step operation s))"
    using Cons.prems(2) by (cases "operation") simp_all
  show ?case using Cons.IH [OF d f] by simp
qed

lemma example_tasks:
  "tasks exampleState = [task2, task1]" "tasks initialState = []"
  "id' task1 = js ''1700000000001''" "id' task2 = js ''1700000000002''"
  "text' task1 = js ''Buy milk''" "text' task2 = js ''Write report''"
  "completed task2" "\<not> completed task1"
  by (simp_all add: exampleState_def initialState_def task1_def task2_def)

lemma textsTrimmed_iff:
  "textsTrimmed ts \<longleftrightarrow> (\<forall>t\<in>set ts. text' t \<noteq> [] \<and> trim (text' t) = text' t)"
  by (simp add: textsTrimmed_def list_all_iff)

lemma textsTrimmed_step:
  assumes "textsTrimmed (tasks s)"
  shows "textsTrimmed (tasks (snd (step operation s)))"
proof (cases "operation")
  case (Add now stamp newText)
  then show ?thesis using assms by (auto simp add: textsTrimmed_iff tasks_addTask trim_idem)
next
  case (Toggle i)
  show ?thesis
    using assms set_updateFirst [of "\<lambda>t. id' t = i" "\<lambda>t. t\<lparr>completed := \<not> completed t\<rparr>" "tasks s"]
    by (auto simp add: Toggle textsTrimmed_iff tasks_toggleTask)
next
  case (Edit i newText)
  show ?thesis
    using assms set_updateFirst [of "\<lambda>t. id' t = i" "\<lambda>t. t\<lparr>text' := trim newText\<rparr>" "tasks s"]
    by (auto simp add: Edit textsTrimmed_iff tasks_editTask trim_idem)
next
  case (Delete i)
  then show ?thesis using assms by (auto simp add: textsTrimmed_iff tasks_deleteTask)
next
  case ClearCompleted
  then show ?thesis using assms by (auto simp add: textsTrimmed_iff tasks_clearCompleted)
qed

lemma textsTrimmed_run: "textsTrimmed (tasks s) \<Longrightarrow> textsTrimmed (tasks (run ops s))"
proof (induction ops arbitrary: s)
  case Nil
  then show ?case by simp
next
  case (Cons operation ops)
  then show ?case using textsTrimmed_step [of s operation] by simp
qed

lemma textsTrimmed_mset: "mset ys = mset xs \<Longrightarrow> textsTrimmed ys = textsTrimmed xs"
  by (metis textsTrimmed_iff set_mset_mset)

lemma subseq_step:
  "subseq (map createdAt (tasks (snd (step operation s))))
     (rev (addedStamps [operation]) @ map createdAt (tasks s))"
proof (cases "operation")
  case (Add now stamp newText)
  have "subseq (map createdAt (tasks s)) (stamp # map createdAt (tasks s))"
    by (rule list_emb_Cons) simp
  then show ?thesis using Add by (simp add: tasks_addTask)
next
  case (Toggle i)
  have "map createdAt (updateFirst (\<lambda>t. id' t = i) (\<lambda>t. t\<lparr>completed := \<not> completed t\<rparr>) (tasks s))
        = map createdAt (tasks s)"
    by (rule updateFirst_map) simp
  then show ?thesis by (simp add: Toggle tasks_toggleTask)
next
  case (Edit i newText)
  have "map createdAt (updateFirst (\<lambda>t. id' t = i) (\<lambda>t. t\<lparr>text' := trim newText\<rparr>) (tasks s))
        = map createdAt (tasks s)"
    by (rule updateFirst_map) simp
  then show ?thesis by (simp add: Edit tasks_editTask)
next
  case (Delete i)
  then show ?thesis by (simp add: tasks_deleteTask subseq_map)
next
  case ClearCompleted
  then show ?thesis by (simp add: tasks_clearCompleted subseq_map)
qed

lemma addedStamps_Cons: "addedStamps (operation # ops) = addedStamps [operation] @ addedStamps ops"
  by (cases "operation") simp_all

lemma subseq_run:
  "subseq (map createdAt (tasks (run ops s))) (rev (addedStamps ops) @ map createdAt (tasks s))"
proof (induction ops arbitrary: s)
  case Nil
  then show ?case by simp
next
  case (Cons operation ops)
  have "subseq (map createdAt (tasks (run ops (snd (step operation s)))))
          (rev (addedStamps ops) @ map createdAt (tasks (snd (step operation s))))"
    by (rule Cons.IH)
  also have "subseq (rev (addedStamps ops) @ map createdAt (tasks (snd (step operation s))))
          (rev (addedStamps ops) @ rev (addedStamps [operation]) @ map createdAt (tasks s))"
    using subseq_step [of operation s] by (simp only: subseq_append')
  finally show ?case
    by (simp add: addedStamps_Cons [of operation ops])
qed

lemma run_exampleOps:
  "map id' (tasks (run exampleOps exampleState)) = [js ''1700000000003'']"
  "map text' (tasks (run exampleOps exampleState)) = [js ''Call Bob'']"
  "clockFresh exampleOps exampleState"
  using nonempty_literals id_literals
  by (simp_all add: exampleOps_def tasks_addTask tasks_toggleTask tasks_editTask tasks_deleteTask
        tasks_clearCompleted fst_addTask trim_examples toString_examples example_tasks)

section \<open>Properties of the sort and of the array store\<close>

lemma mset_insertSorted [simp]: "mset (insertSorted cmp x ys) = add_mset x (mset ys)"
  by (induction ys) simp_all

lemma mset_Array_sort [simp]: "mset (Array_sort cmp xs) = mset xs"
  by (induction xs) (simp_all add: Array_sort_def)

lemma set_Array_sort [simp]: "set (Array_sort cmp xs) = set xs"
  by (metis mset_Array_sort set_mset_mset)

lemma length_Array_sort [simp]: "length (Array_sort cmp xs) = length xs"
  by (metis mset_Array_sort size_mset)

lemma insertSorted_insort_key:
  fixes key :: "'a \<Rightarrow> int"
  assumes "\<And>y. y \<in> set ys \<Longrightarrow> (0 < sortCompare cmp x y) = (key y < key x)"
  shows "insertSorted cmp x ys = insort_key key x ys"
  using assms by (induction ys) auto

lemma Array_sort_sort_key:
  fixes key :: "'a \<Rightarrow> int"
  assumes "\<And>x y. x \<in> set xs \<Longrightarrow> y \<in> set xs \<Longrightarrow> (0 < sortCompare cmp x y) = (key y < key x)"
  shows "Array_sort cmp xs = sort_key key xs"
  using assms
proof (induction xs)
  case Nil
  then show ?case by (simp add: Array_sort_def)
next
  case (Cons a xs)
  then have ih: "Array_sort cmp xs = sort_key key xs" by simp
  have "insertSorted cmp a (sort_key key xs) = insort_key key a (sort_key key xs)"
    by (rule insertSorted_insort_key) (simp add: Cons.prems)
  with ih show ?case by (simp add: Array_sort_def)
qed

text \<open>Sorting by a key that has a value on every element: the unique stable result.\<close>

lemma Array_sort_by_key:
  fixes key :: "'a \<Rightarrow> int"
  assumes "\<And>x y. x \<in> set xs \<Longrightarrow> y \<in> set xs \<Longrightarrow> (0 < sortCompare cmp x y) = (key y < key x)"
  shows "sorted_wrt (\<lambda>x y. key x \<le> key y) (Array_sort cmp xs)"
    and "filter (\<lambda>t. key t = k) (Array_sort cmp xs) = filter (\<lambda>t. key t = k) xs"
proof -
  have eq: "Array_sort cmp xs = sort_key key xs"
    using assms by (rule Array_sort_sort_key)
  have "sorted (map key (sort_key key xs))" by (rule sorted_sort_key)
  then show "sorted_wrt (\<lambda>x y. key x \<le> key y) (Array_sort cmp xs)"
    by (simp add: eq sorted_map)
  show "filter (\<lambda>t. key t = k) (Array_sort cmp xs) = filter (\<lambda>t. key t = k) xs"
    by (simp add: eq sort_key_stable)
qed

lemma sorted_map_const: "\<forall>x\<in>set ys. f x = c \<Longrightarrow> sorted (map f ys)"
  by (induction ys) auto

lemma sort_by_date:
  fixes pd :: "jsstring \<Rightarrow> int option" and xs :: "ptask list" and key :: "ptask \<Rightarrow> int"
  assumes valid: "\<forall>t\<in>set xs. pd (createdAt t) \<noteq> None"
    and cmp: "\<And>x y. x \<in> set xs \<Longrightarrow> y \<in> set xs \<Longrightarrow> (0 < sortCompare cmp x y) = (key y < key x)"
    and key: "\<And>t d. t \<in> set xs \<Longrightarrow> (pd (createdAt t) = Some d) = (key t = f d)"
  shows "filter (\<lambda>t. pd (createdAt t) = k) (Array_sort cmp xs) = filter (\<lambda>t. pd (createdAt t) = k) xs"
proof (cases k)
  case None
  have "filter (\<lambda>t. pd (createdAt t) = None) ys = []" if "set ys = set xs" for ys
    using valid that by (auto simp add: filter_empty_conv)
  then show ?thesis using None by simp
next
  case (Some d)
  have "filter (\<lambda>t. pd (createdAt t) = Some d) ys = filter (\<lambda>t. key t = f d) ys" if "set ys = set xs" for ys
    by (rule filter_cong) (use that key in auto)
  then show ?thesis using Some Array_sort_by_key(2) [of xs cmp key "f d", OF cmp] by simp
qed

lemma sort_by_priority:
  fixes xs :: "ptask list"
  assumes valid: "\<forall>t\<in>set xs. priority t \<in> {js ''high'', js ''medium'', js ''low''}"
  shows "Array_sort (\<lambda>x y. numMinus (priorityOrder (priority y)) (priorityOrder (priority x))) xs
         = filter (\<lambda>t. priority t = js ''high'') xs @ filter (\<lambda>t. priority t = js ''medium'') xs
           @ filter (\<lambda>t. priority t = js ''low'') xs"
    (is "Array_sort ?cmp xs = ?H @ ?M @ ?L")
proof -
  define key :: "ptask \<Rightarrow> int" where "key t = - the (priorityOrder (priority t))" for t
  have k: "key t = (if priority t = js ''high'' then -3 else if priority t = js ''medium'' then -2 else -1)"
    if "t \<in> set xs" for t
    using valid that js_priorities_distinct by (auto simp add: key_def priorityOrder_def)
  have "(0 < sortCompare ?cmp x y) = (key y < key x)" if "x \<in> set xs" "y \<in> set xs" for x y
    using that valid js_priorities_distinct
    by (auto simp add: key_def sortCompare_def numMinus_def priorityOrder_def)
  then have "Array_sort ?cmp xs = sort_key key xs" by (rule Array_sort_sort_key)
  also have "sort_key key xs = ?H @ ?M @ ?L"
  proof (rule properties_for_sort_key)
    show "mset (?H @ ?M @ ?L) = mset xs"
      using valid js_priorities_distinct
    proof (induction xs)
      case Nil
      then show ?case by simp
    next
      case (Cons a xs)
      then show ?case by auto
    qed
  next
    fix t assume "t \<in> set (?H @ ?M @ ?L)"
    then have t: "t \<in> set xs" by auto
    have kk: "(key t = key x) = (priority x = priority t)" if "x \<in> set xs" for x
      using k [OF that] k [OF t] bspec [OF valid that] bspec [OF valid t] js_priorities_distinct
      by (auto split: if_splits)
    have e: "filter (\<lambda>x. key t = key x) ys = filter (\<lambda>x. priority x = priority t) ys"
      if "set ys \<subseteq> set xs" for ys
      by (rule filter_cong) (use that kk in auto)
    have "filter (\<lambda>x. priority x = priority t) (?H @ ?M @ ?L) = filter (\<lambda>x. priority x = priority t) xs"
      using valid t js_priorities_distinct
      by (auto simp add: filter_empty_conv intro: filter_cong)
    then show "filter (\<lambda>x. key t = key x) (?H @ ?M @ ?L) = filter (\<lambda>x. key t = key x) xs"
      using e [of xs] e [of "?H @ ?M @ ?L"] by auto
  next
    have c: "\<forall>t\<in>set ?H. key t = -3" "\<forall>t\<in>set ?M. key t = -2" "\<forall>t\<in>set ?L. key t = -1"
      using k js_priorities_distinct by auto
    have "sorted (map key ?H)" "sorted (map key ?M)" "sorted (map key ?L)"
      by (rule sorted_map_const, rule c(1), rule sorted_map_const, rule c(2),
          rule sorted_map_const, rule c(3))
    moreover have "\<forall>x\<in>set (map key ?H). \<forall>y\<in>set (map key ?M @ map key ?L). x \<le> y"
      using c by (auto simp del: set_filter)
    moreover have "\<forall>x\<in>set (map key ?M). \<forall>y\<in>set (map key ?L). x \<le> y"
      using c by (auto simp del: set_filter)
    ultimately show "sorted (map key (?H @ ?M @ ?L))"
      by (simp only: map_append sorted_append)
  qed
  finally show ?thesis .
qed

lemma sortTasks_cases:
  "sortTasks pd a s =
     (a, if currentSort s = js ''newest'' then
           s\<lparr>arrays := (arrays s)(a := Array_sort (\<lambda>x y. numMinus (pd (createdAt y)) (pd (createdAt x))) (arrays s a))\<rparr>
         else if currentSort s = js ''oldest'' then
           s\<lparr>arrays := (arrays s)(a := Array_sort (\<lambda>x y. numMinus (pd (createdAt x)) (pd (createdAt y))) (arrays s a))\<rparr>
         else if currentSort s = js ''priority'' then
           s\<lparr>arrays := (arrays s)(a := Array_sort (\<lambda>x y. numMinus (priorityOrder (priority y)) (priorityOrder (priority x))) (arrays s a))\<rparr>
         else s)"
  by (simp add: sortTasks_def)

lemma sort_newest:
  fixes xs :: "ptask list"
  assumes valid: "\<forall>t\<in>set xs. pd (createdAt t) \<noteq> None"
  defines "ys \<equiv> Array_sort (\<lambda>x y. numMinus (pd (createdAt y)) (pd (createdAt x))) xs"
  shows "sorted_wrt (\<lambda>x y. the (pd (createdAt y)) \<le> the (pd (createdAt x))) ys"
    and "filter (\<lambda>t. pd (createdAt t) = k) ys = filter (\<lambda>t. pd (createdAt t) = k) xs"
proof -
  define key :: "ptask \<Rightarrow> int" where "key t = - the (pd (createdAt t))" for t
  have cmp: "(0 < sortCompare (\<lambda>x y. numMinus (pd (createdAt y)) (pd (createdAt x))) x y) = (key y < key x)"
    if "x \<in> set xs" "y \<in> set xs" for x y
  proof -
    from that valid obtain dx dy where "pd (createdAt x) = Some dx" "pd (createdAt y) = Some dy"
      by fastforce
    then show ?thesis by (simp add: key_def sortCompare_def numMinus_def)
  qed
  have "sorted_wrt (\<lambda>x y. key x \<le> key y) ys"
    unfolding ys_def using cmp by (rule Array_sort_by_key(1))
  then show "sorted_wrt (\<lambda>x y. the (pd (createdAt y)) \<le> the (pd (createdAt x))) ys"
    by (simp add: key_def)
  have "(pd (createdAt t) = Some d) = (key t = - d)" if "t \<in> set xs" for t d
    using that valid by (auto simp add: key_def)
  with valid cmp show "filter (\<lambda>t. pd (createdAt t) = k) ys = filter (\<lambda>t. pd (createdAt t) = k) xs"
    unfolding ys_def by (rule sort_by_date)
qed

lemma sort_oldest:
  fixes xs :: "ptask list"
  assumes valid: "\<forall>t\<in>set xs. pd (createdAt t) \<noteq> None"
  defines "ys \<equiv> Array_sort (\<lambda>x y. numMinus (pd (createdAt x)) (pd (createdAt y))) xs"
  shows "sorted_wrt (\<lambda>x y. the (pd (createdAt x)) \<le> the (pd (createdAt y))) ys"
    and "filter (\<lambda>t. pd (createdAt t) = k) ys = filter (\<lambda>t. pd (createdAt t) = k) xs"
proof -
  define key :: "ptask \<Rightarrow> int" where "key t = the (pd (createdAt t))" for t
  have cmp: "(0 < sortCompare (\<lambda>x y. numMinus (pd (createdAt x)) (pd (createdAt y))) x y) = (key y < key x)"
    if "x \<in> set xs" "y \<in> set xs" for x y
  proof -
    from that valid obtain dx dy where "pd (createdAt x) = Some dx" "pd (createdAt y) = Some dy"
      by fastforce
    then show ?thesis by (simp add: key_def sortCompare_def numMinus_def)
  qed
  have "sorted_wrt (\<lambda>x y. key x \<le> key y) ys"
    unfolding ys_def using cmp by (rule Array_sort_by_key(1))
  then show "sorted_wrt (\<lambda>x y. the (pd (createdAt x)) \<le> the (pd (createdAt y))) ys"
    by (simp add: key_def)
  have "(pd (createdAt t) = Some d) = (key t = d)" if "t \<in> set xs" for t d
    using that valid by (auto simp add: key_def)
  with valid cmp show "filter (\<lambda>t. pd (createdAt t) = k) ys = filter (\<lambda>t. pd (createdAt t) = k) xs"
    unfolding ys_def by (rule sort_by_date)
qed

lemma alloc_simps [simp]:
  "fst (alloc xs p) = nextAddr p"
  "arrays (snd (alloc xs p)) (nextAddr p) = xs"
  "a \<noteq> nextAddr p \<Longrightarrow> arrays (snd (alloc xs p)) a = arrays p a"
  "tasks_pro (snd (alloc xs p)) = tasks_pro p"
  "nextAddr (snd (alloc xs p)) = Suc (nextAddr p)"
  "currentSort (snd (alloc xs p)) = currentSort p"
  "currentFilter_pro (snd (alloc xs p)) = currentFilter_pro p"
  "currentView (snd (alloc xs p)) = currentView p"
  "storage_pro (snd (alloc xs p)) = storage_pro p"
  "notifications_pro (snd (alloc xs p)) = notifications_pro p"
  by (simp_all add: alloc_def)

lemma showNotification_pro_fields [simp]:
  "arrays (showNotification_pro m k p) = arrays p"
  "tasks_pro (showNotification_pro m k p) = tasks_pro p"
  "nextAddr (showNotification_pro m k p) = nextAddr p"
  "storage_pro (showNotification_pro m k p) = storage_pro p"
  "currentView (showNotification_pro m k p) = currentView p"
  "currentFilter_pro (showNotification_pro m k p) = currentFilter_pro p"
  "currentSort (showNotification_pro m k p) = currentSort p"
  by (simp_all add: showNotification_pro_def)

lemma saveTasks_pro_fields [simp]:
  "arrays (saveTasks_pro p) = arrays p"
  "tasks_pro (saveTasks_pro p) = tasks_pro p"
  "nextAddr (saveTasks_pro p) = nextAddr p"
  "currentView (saveTasks_pro p) = currentView p"
  "currentFilter_pro (saveTasks_pro p) = currentFilter_pro p"
  "currentSort (saveTasks_pro p) = currentSort p"
  by (simp_all add: saveTasks_pro_def setItem_def Let_def)

lemma sortTasks_fields [simp]:
  "tasks_pro (snd (sortTasks pd a p)) = tasks_pro p"
  "nextAddr (snd (sortTasks pd a p)) = nextAddr p"
  "b \<noteq> a \<Longrightarrow> arrays (snd (sortTasks pd a p)) b = arrays p b"
  by (simp_all add: sortTasks_cases)

lemma mset_sortTasks [simp]: "mset (arrays (snd (sortTasks pd a p)) a) = mset (arrays p a)"
  by (simp add: sortTasks_cases)

text \<open>
  What \<^verbatim>\<open>renderTasks\<close> does to the collection: with a filter that builds a new array the
  collection's array is untouched; otherwise it is permuted.
\<close>

lemma renderTasks_store:
  assumes "tasks_pro p < nextAddr p"
  shows "tasks_pro (snd (renderTasks pd p)) = tasks_pro p"
    and "mset (arrays (snd (renderTasks pd p)) (tasks_pro p)) = mset (arrays p (tasks_pro p))"
    and "tasks_pro (snd (renderTasks pd p)) < nextAddr (snd (renderTasks pd p))"
proof -
  obtain a p1 where g: "getFilteredTasks_pro p = (a, p1)" by fastforce
  have t: "tasks_pro p1 = tasks_pro p"
    using g by (auto simp add: getFilteredTasks_pro_def Let_def alloc_def split: if_splits)
  have n: "nextAddr p \<le> nextAddr p1"
    using g by (auto simp add: getFilteredTasks_pro_def Let_def alloc_def split: if_splits)
  have c: "(a = tasks_pro p \<and> p1 = p) \<or> (a = nextAddr p \<and> arrays p1 (tasks_pro p) = arrays p (tasks_pro p))"
    using g assms by (auto simp add: getFilteredTasks_pro_def Let_def alloc_def split: if_splits)
  have r: "renderTasks pd p = sortTasks pd a p1"
    by (simp add: renderTasks_def g)
  show "tasks_pro (snd (renderTasks pd p)) = tasks_pro p"
    by (simp add: r t)
  show "mset (arrays (snd (renderTasks pd p)) (tasks_pro p)) = mset (arrays p (tasks_pro p))"
    using c assms by (auto simp add: r)
  show "tasks_pro (snd (renderTasks pd p)) < nextAddr (snd (renderTasks pd p))"
    using assms n by (simp add: r t)
qed

lemma renderCurrentView_store:
  assumes "tasks_pro p < nextAddr p"
  shows "tasks_pro (renderCurrentView pd p) = tasks_pro p"
    and "mset (arrays (renderCurrentView pd p) (tasks_pro p)) = mset (arrays p (tasks_pro p))"
  using renderTasks_store [OF assms, of pd]
  by (simp_all add: renderCurrentView_def renderDashboard_def)

lemma addTask_pro_store:
  assumes "tasks_pro p < nextAddr p"
  shows "tasks_pro (snd (addTask_pro pd now stamp txt prio due proj p)) = tasks_pro p"
    and "mset (arrays (snd (addTask_pro pd now stamp txt prio due proj p)) (tasks_pro p)) =
       (if trim txt = [] then mset (arrays p (tasks_pro p))
        else add_mset \<lparr>id' = toString now, text' = trim txt, completed = False, createdAt = stamp,
                          priority = prio, dueDate = due, project = proj,
                          propertyOrder = ProjectFirst\<rparr>
               (mset (arrays p (tasks_pro p))))"
proof -
  let ?new = "\<lparr>id' = toString now, text' = trim txt, completed = False, createdAt = stamp,
                 priority = prio, dueDate = due, project = proj, propertyOrder = ProjectFirst\<rparr>"
  let ?p1 = "saveTasks_pro (p\<lparr>arrays := (arrays p)(tasks_pro p := ?new # arrays p (tasks_pro p))\<rparr>)"
  have w: "tasks_pro ?p1 < nextAddr ?p1" using assms by simp
  have e: "trim txt \<noteq> [] \<Longrightarrow> snd (addTask_pro pd now stamp txt prio due proj p) =
      showNotification_pro (js ''Task added successfully!'') (js ''success'') (renderCurrentView pd ?p1)"
    by (simp add: addTask_pro_def validateTask_pro_def Let_def)
  have f: "trim txt = [] \<Longrightarrow> snd (addTask_pro pd now stamp txt prio due proj p) =
      showNotification_pro (js ''Task cannot be empty'') (js ''error'') p"
    by (simp add: addTask_pro_def validateTask_pro_def Let_def)
  show "tasks_pro (snd (addTask_pro pd now stamp txt prio due proj p)) = tasks_pro p"
    using renderCurrentView_store(1) [OF w, of pd] e f by (cases "trim txt = []") simp_all
  show "mset (arrays (snd (addTask_pro pd now stamp txt prio due proj p)) (tasks_pro p)) =
       (if trim txt = [] then mset (arrays p (tasks_pro p))
        else add_mset ?new (mset (arrays p (tasks_pro p))))"
    using renderCurrentView_store(2) [OF w, of pd] e f by (cases "trim txt = []") simp_all
qed

lemma distinct_map_mset:
  "mset ys = mset xs \<Longrightarrow> distinct (map f ys) = distinct (map f xs)"
  by (metis mset_eq_imp_distinct_iff mset_map)

lemma example_ptasks:
  "arrays seedState (tasks_pro seedState) = [ptaskA, ptaskB]" "tasks_pro seedState < nextAddr seedState"
  "id' ptaskA = js ''1''" "id' ptaskB = js ''2''"
  "text' ptaskA = js ''Welcome to FlowTask Pro!''" "text' ptaskB = js ''Create project presentation''"
  by (simp_all add: seedState_def ptaskA_def ptaskB_def)

section \<open>Parsing what stringify wrote\<close>

lemma unat_small: "n < 65536 \<Longrightarrow> unat (of_nat n :: 16 word) = n"
  by (simp add: unat_of_nat)



































lemma key_literals:
  "js ''id'' \<noteq> js ''text''" "js ''id'' \<noteq> js ''completed''" "js ''id'' \<noteq> js ''createdAt''"
  "js ''id'' \<noteq> js ''priority''" "js ''id'' \<noteq> js ''dueDate''" "js ''id'' \<noteq> js ''project''"
  "js ''text'' \<noteq> js ''completed''" "js ''text'' \<noteq> js ''createdAt''"
  "js ''text'' \<noteq> js ''priority''" "js ''text'' \<noteq> js ''dueDate''" "js ''text'' \<noteq> js ''project''"
  "js ''completed'' \<noteq> js ''createdAt''" "js ''completed'' \<noteq> js ''priority''"
  "js ''completed'' \<noteq> js ''dueDate''" "js ''completed'' \<noteq> js ''project''"
  "js ''priority'' \<noteq> js ''dueDate''" "js ''priority'' \<noteq> js ''project''"
  "js ''priority'' \<noteq> js ''createdAt''" "js ''dueDate'' \<noteq> js ''project''"
  "js ''dueDate'' \<noteq> js ''createdAt''" "js ''project'' \<noteq> js ''createdAt''"
  by (simp_all add: js_def)





lemma taskOfJSON_ptaskJSON:
  "taskOfJSON (ptaskJSON t) =
     Some \<lparr>id' = id' t, text' = text' t, completed = completed t, createdAt = createdAt t\<rparr>"
  using key_literals key_literals [symmetric]
  by (cases "propertyOrder t") (simp_all add: taskOfJSON_def ptaskJSON_def property_def)

lemma propertyOrderOfJSON_ptaskJSON: "propertyOrderOfJSON (ptaskJSON t) = Some (propertyOrder t)"
  using key_literals key_literals [symmetric]
  by (cases "propertyOrder t") (simp_all add: propertyOrderOfJSON_def ptaskJSON_def)

lemma ptaskOfJSON_ptaskJSON: "ptaskOfJSON (ptaskJSON t) = Some t"
proof -
  have "property (js ''priority'') (ptaskJSON t) = Some (JStr (priority t))"
    "property (js ''project'') (ptaskJSON t) = Some (JStr (project t))"
    "Option.bind (property (js ''dueDate'') (ptaskJSON t)) dueDateOfJSON = Some (dueDate t)"
    using key_literals key_literals [symmetric]
    by (cases "propertyOrder t";
        simp add: ptaskJSON_def property_def dueDateOfJSON_def split: option.splits)+
  then show ?thesis
    by (simp add: ptaskOfJSON_def taskOfJSON_ptaskJSON propertyOrderOfJSON_ptaskJSON)
qed

lemma those_map_Some: "(\<And>x. f (g x) = Some x) \<Longrightarrow> those (map (f \<circ> g) xs) = Some xs"
  by (induction xs) simp_all


lemma ptasksOfJSON_ptasks: "ptasksOfJSON (JArr (map ptaskJSON ts)) = Some ts"
  by (simp add: ptasksOfJSON_def those_map_Some ptaskOfJSON_ptaskJSON)








section \<open>Properties of the Pro variant's start and view\<close>

text \<open>
  The seed state is what the constructor gets from \<^verbatim>\<open>loadTasks\<close> on an empty storage,
  when the clock shows the two stamps.
\<close>

lemma seedTasks_ptaskJSON:
  "seedTasks (js ''2025-01-01T09:00:00.000Z'') (js ''2025-01-02'') (js ''2025-01-01T09:00:00.001Z'')
   = JArr (map ptaskJSON [ptaskA, ptaskB])"
  by (simp add: seedTasks_def ptaskJSON_def ptaskA_def ptaskB_def)

lemma seedState_loaded:
  "fst (loadTasks_pro (js ''2025-01-01T09:00:00.000Z'') (js ''2025-01-02'')
          (js ''2025-01-01T09:00:00.001Z'') seedState)
   = JArr (map ptaskJSON (arrays seedState (tasks_pro seedState)))"
  "ptasksOfJSON (fst (loadTasks_pro (js ''2025-01-01T09:00:00.000Z'') (js ''2025-01-02'')
                        (js ''2025-01-01T09:00:00.001Z'') seedState))
   = Some (arrays seedState (tasks_pro seedState))"
proof -
  have l: "fst (loadTasks_pro (js ''2025-01-01T09:00:00.000Z'') (js ''2025-01-02'')
                        (js ''2025-01-01T09:00:00.001Z'') seedState)
      = seedTasks (js ''2025-01-01T09:00:00.000Z'') (js ''2025-01-02'') (js ''2025-01-01T09:00:00.001Z'')"
    by (simp add: loadTasks_pro_def getItem_def seedState_def emptyStorage_def)
  show "fst (loadTasks_pro (js ''2025-01-01T09:00:00.000Z'') (js ''2025-01-02'')
          (js ''2025-01-01T09:00:00.001Z'') seedState)
   = JArr (map ptaskJSON (arrays seedState (tasks_pro seedState)))"
    by (simp only: l seedTasks_ptaskJSON example_ptasks)
  then show "ptasksOfJSON (fst (loadTasks_pro (js ''2025-01-01T09:00:00.000Z'') (js ''2025-01-02'')
                        (js ''2025-01-01T09:00:00.001Z'') seedState))
   = Some (arrays seedState (tasks_pro seedState))"
    by (simp only: ptasksOfJSON_ptasks)
qed

text \<open>
  With a filter that has a case of its own, \<^verbatim>\<open>renderTasks\<close> sorts a new array and the
  collection's array stays as it is.
\<close>

lemma renderTasks_filtered:
  assumes "tasks_pro p < nextAddr p"
    and "currentFilter_pro p = js ''active'' \<or> currentFilter_pro p = js ''completed''
         \<or> currentFilter_pro p = js ''high''"
  shows "fst (renderTasks pd p) = nextAddr p"
    and "fst (renderTasks pd p) \<noteq> tasks_pro p"
    and "arrays (snd (renderTasks pd p)) (tasks_pro p) = arrays p (tasks_pro p)"
proof -
  obtain xs where g: "getFilteredTasks_pro p = alloc xs p"
    using assms(2) filter_literals by (auto simp add: getFilteredTasks_pro_def Let_def)
  have r: "renderTasks pd p = sortTasks pd (nextAddr p) (snd (alloc xs p))"
    by (simp add: renderTasks_def g alloc_def)
  show "fst (renderTasks pd p) = nextAddr p"
    by (simp add: r sortTasks_cases)
  then show "fst (renderTasks pd p) \<noteq> tasks_pro p" using assms(1) by simp
  show "arrays (snd (renderTasks pd p)) (tasks_pro p) = arrays p (tasks_pro p)"
    using assms(1) by (simp add: r)
qed

section \<open>The decimal string of a clock reading\<close>

lemma digit_char_inj:
  assumes "a < 10" "b < 10" and e: "(of_nat (48 + a) :: jschar) = of_nat (48 + b)"
  shows "a = b"
proof -
  have ua: "unat (of_nat (48 + a) :: jschar) = 48 + a"
    using assms(1) by (intro unat_small) simp
  have ub: "unat (of_nat (48 + b) :: jschar) = 48 + b"
    using assms(2) by (intro unat_small) simp
  from e have "unat (of_nat (48 + a) :: jschar) = unat (of_nat (48 + b) :: jschar)"
    by (rule arg_cong)
  then have "48 + a = 48 + b" unfolding ua ub .
  then show ?thesis by simp
qed

lemma digits_nonempty: "digits n \<noteq> []"
  by (subst digits.simps) simp

lemma digits_small: "n < 10 \<Longrightarrow> digits n = [of_nat (48 + n)]"
  by (subst digits.simps) simp

lemma digits_large: "\<not> n < 10 \<Longrightarrow> digits n = digits (n div 10) @ [of_nat (48 + n mod 10)]"
  by (subst digits.simps) simp

lemma digits_inj: "digits n = digits m \<Longrightarrow> n = m"
proof (induction n arbitrary: m rule: digits.induct)
  case (1 n)
  show ?case
  proof (cases "n < 10")
    case True
    then have l: "length (digits m) = 1" using "1.prems" [symmetric] by (simp add: digits_small)
    have m: "m < 10"
    proof (rule ccontr)
      assume "\<not> m < 10"
      then have "length (digits m) = Suc (length (digits (m div 10)))" by (simp add: digits_large)
      with l digits_nonempty [of "m div 10"] show False by simp
    qed
    then show ?thesis
      using True "1.prems" by (simp add: digits_small digit_char_inj del: of_nat_add)
  next
    case False
    then have n: "digits n = digits (n div 10) @ [of_nat (48 + n mod 10)]" by (rule digits_large)
    have m: "\<not> m < 10"
    proof
      assume "m < 10"
      then have "length (digits n) = 1" using "1.prems" by (simp add: digits_small)
      with n digits_nonempty [of "n div 10"] show False by simp
    qed
    then have "digits (n div 10) @ [of_nat (48 + n mod 10)] = digits (m div 10) @ [of_nat (48 + m mod 10)]"
      using n "1.prems" digits_large [OF m] by metis
    then have a: "digits (n div 10) = digits (m div 10)"
      and b: "(of_nat (48 + n mod 10) :: jschar) = of_nat (48 + m mod 10)"
      by simp_all
    have "n div 10 = m div 10" using "1.IH" [OF False a] .
    moreover have "n mod 10 = m mod 10" using b by (intro digit_char_inj) simp_all
    ultimately show ?thesis by (metis div_mult_mod_eq)
  qed
qed

lemma digits_not_minus: "hd (digits n) \<noteq> 0x2D"
proof (induction n rule: digits.induct)
  case (1 n)
  show ?case
  proof (cases "n < 10")
    case True
    then have u: "unat (of_nat (48 + n) :: jschar) = 48 + n"
      by (intro unat_small) simp
    have "(of_nat (48 + n) :: jschar) \<noteq> 0x2D"
    proof
      assume "(of_nat (48 + n) :: jschar) = 0x2D"
      then have "unat (of_nat (48 + n) :: jschar) = unat (0x2D :: jschar)" by (rule arg_cong)
      then have "48 + n = 45" unfolding u by simp
      then show False by simp
    qed
    then show ?thesis using True by (simp add: digits_small del: of_nat_add)
  next
    case False
    then show ?thesis using "1.IH" digits_nonempty [of "n div 10"] by (simp add: digits_large)
  qed
qed

lemma toString_inj: "toString a = toString b \<longleftrightarrow> a = b"
proof
  assume e: "toString a = toString b"
  show "a = b"
  proof (cases "a < 0")
    case True
    have "b < 0"
    proof (rule ccontr)
      assume "\<not> b < 0"
      then have "0x2D # digits (nat (- a)) = digits (nat b)" using e True by (simp add: toString_def)
      then have "hd (digits (nat b)) = 0x2D" by (metis list.sel(1))
      then show False using digits_not_minus by blast
    qed
    then have "digits (nat (- a)) = digits (nat (- b))" using e True by (simp add: toString_def)
    then have "nat (- a) = nat (- b)" by (rule digits_inj)
    then show ?thesis using True \<open>b < 0\<close> by simp
  next
    case False
    have "\<not> b < 0"
    proof
      assume "b < 0"
      then have "digits (nat a) = 0x2D # digits (nat (- b))" using e False by (simp add: toString_def)
      then have "hd (digits (nat a)) = 0x2D" by (metis list.sel(1))
      then show False using digits_not_minus by blast
    qed
    then have "digits (nat a) = digits (nat b)" using e False by (simp add: toString_def)
    then have "nat a = nat b" by (rule digits_inj)
    then show ?thesis using False \<open>\<not> b < 0\<close> by simp
  qed
qed simp

section \<open>The size of the stored text\<close>










section \<open>The claims of the specification\<close>

subsection \<open>C1: saving and loading give the collection back\<close>



text \<open>
  The claim as stated fails: it has no proviso, and \<^verbatim>\<open>saveTasks\<close> catches the exception
  of a storage that refuses the write and goes on. On a storage without room left, a
  collection of one task is saved with the report "Error saving tasks", and \<^verbatim>\<open>loadTasks\<close>
  then returns the empty array.
\<close>

theorem save_refused_then_load_counterexample:
  "tasks fullState = [task1]
   \<and> notifications (saveTasks fullState) = [(js ''Error saving tasks'', js ''error'')]
   \<and> loadTasks (storage (saveTasks fullState)) = JArr []
   \<and> tasksOfJSON (loadTasks (storage (saveTasks fullState))) = Some []
   \<and> tasksOfJSON (loadTasks (storage (saveTasks fullState))) \<noteq> Some (tasks fullState)"
proof -
  have s: "saveTasks fullState =
      showNotification (js ''Error saving tasks'') (js ''error'')
        (fullState\<lparr>storage := fullStorage\<lparr>setItemCalls := 1\<rparr>\<rparr>)"
    by (simp add: saveTasks_def setItem_def Let_def usage_def fullState_def fullStorage_def js_def
          del: JSON_stringify.simps)
  have l: "loadTasks (storage (saveTasks fullState)) = JArr []"
    unfolding s
    by (simp add: loadTasks_def getItem_def showNotification_def fullState_def fullStorage_def)
  have n: "notifications (saveTasks fullState) = [(js ''Error saving tasks'', js ''error'')]"
    unfolding s by (simp add: showNotification_def fullState_def)
  have t: "tasks fullState = [task1]"
    by (simp add: fullState_def)
  show ?thesis
    by (simp add: l n t tasksOfJSON_def)
qed

subsection \<open>C2: ids stay distinct while the clock gives new values\<close>

text \<open>
  Claim C2, as amended. The id of a new task is the decimal string of the clock reading
  \<^verbatim>\<open>Date.now()\<close>. From a state with pairwise distinct ids, every sequence of add, toggle,
  edit, delete and clearCompleted leads to a state with pairwise distinct ids, provided
  that each successful add reads a clock value whose decimal string is not the id of a
  task in the collection at that moment; a successful add puts that string in front of
  the ids. \<^verbatim>\<open>addTask\<close> of the Pro variant keeps the ids distinct under the same proviso.
  Two clock readings have the same decimal string only when they are equal.
\<close>

theorem ids_stay_distinct_with_fresh_clock:
  "(distinct (map id' (tasks s)) \<and> clockFresh ops s \<longrightarrow>
      distinct (map id' (tasks (run ops s))))
   \<and> (fst (addTask now stamp txt s) = Boolean True \<longrightarrow>
      map id' (tasks (snd (addTask now stamp txt s))) = toString now # map id' (tasks s))
   \<and> (distinct (map id' (arrays p (tasks_pro p))) \<and> tasks_pro p < nextAddr p
        \<and> toString now \<notin> set (map id' (arrays p (tasks_pro p))) \<longrightarrow>
      distinct (map id' (arrays (snd (addTask_pro pd now stamp txt prio due proj p))
                          (tasks_pro (snd (addTask_pro pd now stamp txt prio due proj p))))))
   \<and> (toString now = toString now' \<longleftrightarrow> now = now')"
proof (intro conjI impI)
  assume "distinct (map id' (tasks s)) \<and> clockFresh ops s"
  then show "distinct (map id' (tasks (run ops s)))" by (simp add: distinct_run)
next
  assume "fst (addTask now stamp txt s) = Boolean True"
  then show "map id' (tasks (snd (addTask now stamp txt s))) = toString now # map id' (tasks s)"
    by (auto simp add: fst_addTask tasks_addTask)
next
  assume h: "distinct (map id' (arrays p (tasks_pro p))) \<and> tasks_pro p < nextAddr p
        \<and> toString now \<notin> set (map id' (arrays p (tasks_pro p)))"
  let ?new = "\<lparr>id' = toString now, text' = trim txt, completed = False, createdAt = stamp,
                 priority = prio, dueDate = due, project = proj, propertyOrder = ProjectFirst\<rparr>"
  let ?p' = "snd (addTask_pro pd now stamp txt prio due proj p)"
  have w: "tasks_pro p < nextAddr p" using h by simp
  have t: "tasks_pro ?p' = tasks_pro p" by (rule addTask_pro_store(1) [OF w])
  have m: "mset (arrays ?p' (tasks_pro p)) =
       mset (if trim txt = [] then arrays p (tasks_pro p) else ?new # arrays p (tasks_pro p))"
    using addTask_pro_store(2) [OF w, of pd now stamp "txt" prio due proj] by simp
  have "distinct (map id' (if trim txt = [] then arrays p (tasks_pro p) else ?new # arrays p (tasks_pro p)))"
    using h by auto
  then show "distinct (map id' (arrays ?p' (tasks_pro ?p')))"
    using distinct_map_mset [OF m, of id'] by (simp add: t)
next
  show "toString now = toString now' \<longleftrightarrow> now = now'"
    by (rule toString_inj)
qed

text \<open>
  The theorem at the example state and the example sequence, and at the seed state of
  the Pro variant.
\<close>

theorem ids_stay_distinct_with_fresh_clock_witness:
  "distinct (map id' (tasks exampleState))
   \<and> clockFresh exampleOps exampleState
   \<and> distinct (map id' (tasks (run exampleOps exampleState)))
   \<and> fst (addTask 1700000000003 (js ''2023-11-14T22:13:20.003Z'') (js ''  Call Bob '') exampleState)
       = Boolean True
   \<and> map id' (tasks (snd (addTask 1700000000003 (js ''2023-11-14T22:13:20.003Z'') (js ''  Call Bob '')
         exampleState)))
       = [js ''1700000000003'', js ''1700000000002'', js ''1700000000001'']
   \<and> distinct (map id' (arrays seedState (tasks_pro seedState)))
   \<and> tasks_pro seedState < nextAddr seedState
   \<and> toString 1700000000003 \<notin> set (map id' (arrays seedState (tasks_pro seedState)))
   \<and> distinct (map id'
        (arrays (snd (addTask_pro exampleParseDate 1700000000003 (js ''2025-01-01T09:00:00.001Z'')
                       (js ''  Call Bob '') (js ''low'') None (js ''Inbox'') seedState))
           (tasks_pro (snd (addTask_pro exampleParseDate 1700000000003 (js ''2025-01-01T09:00:00.001Z'')
                       (js ''  Call Bob '') (js ''low'') None (js ''Inbox'') seedState)))))"
  using ids_stay_distinct_with_fresh_clock
          [of exampleState exampleOps 1700000000003 "js ''2023-11-14T22:13:20.003Z''"
              "js ''  Call Bob ''" seedState exampleParseDate "js ''low''" None "js ''Inbox''"]
        ids_stay_distinct_with_fresh_clock
          [of exampleState exampleOps 1700000000003 "js ''2025-01-01T09:00:00.001Z''"
              "js ''  Call Bob ''" seedState exampleParseDate "js ''low''" None "js ''Inbox''"]
        nonempty_literals id_literals
  by (simp add: run_exampleOps example_tasks example_ptasks fst_addTask trim_examples toString_examples)

text \<open>
  The claim as stated fails: two calls of \<^verbatim>\<open>addTask\<close> within one millisecond, from the
  empty collection, give two tasks with the same id.
\<close>

theorem same_millisecond_ids_counterexample:
  "distinct (map id' (tasks initialState))
   \<and> map id' (tasks (run [Add 1700000000000 (js ''2023-11-14T22:13:20.000Z'') (js ''a''),
                           Add 1700000000000 (js ''2023-11-14T22:13:20.000Z'') (js ''b'')] initialState))
       = [js ''1700000000000'', js ''1700000000000'']
   \<and> \<not> distinct (map id' (tasks (run [Add 1700000000000 (js ''2023-11-14T22:13:20.000Z'') (js ''a''),
                           Add 1700000000000 (js ''2023-11-14T22:13:20.000Z'') (js ''b'')] initialState)))"
  using nonempty_literals
  by (simp add: tasks_addTask trim_examples toString_examples initialState_def)

subsection \<open>C3: invalid text is rejected and nothing changes\<close>

text \<open>
  Claim C3. When the trimmed text is empty, \<^verbatim>\<open>addTask\<close> fails (it returns \<^verbatim>\<open>false\<close>) with
  the report "Task cannot be empty", in both variants; in the variant with the bound of
  100 characters it fails with the report "Task must be less than 100 characters" when
  the trimmed text is longer than 100. In each of these cases the state is the one before
  the call with the report added: the task collection and the storage are unchanged.
\<close>

theorem add_rejects_invalid_text:
  "(trim txt = [] \<longrightarrow>
      addTask now stamp txt s =
        (Boolean False, showNotification (js ''Task cannot be empty'') (js ''error'') s)
      \<and> addTask_pro parseDate now stamp txt prio due proj p =
        (Boolean False, showNotification_pro (js ''Task cannot be empty'') (js ''error'') p))
   \<and> (100 < length (trim txt) \<longrightarrow>
      addTask now stamp txt s =
        (Boolean False,
         showNotification (js ''Task must be less than 100 characters'') (js ''error'') s))
   \<and> (trim txt = [] \<or> 100 < length (trim txt) \<longrightarrow>
      tasks (snd (addTask now stamp txt s)) = tasks s
      \<and> storage (snd (addTask now stamp txt s)) = storage s)
   \<and> (trim txt = [] \<longrightarrow>
      arrays (snd (addTask_pro parseDate now stamp txt prio due proj p)) = arrays p
      \<and> tasks_pro (snd (addTask_pro parseDate now stamp txt prio due proj p)) = tasks_pro p
      \<and> storage_pro (snd (addTask_pro parseDate now stamp txt prio due proj p)) = storage_pro p)"
  by (auto simp add: addTask_def addTask_pro_def validateTask_cases validateTask_pro_def
        showNotification_pro_def)

text \<open>The theorem at \<^verbatim>\<open>"   "\<close> and at a text of 101 letters.\<close>

theorem add_rejects_invalid_text_witness:
  "trim (js ''   '') = []
   \<and> addTask 0 [] (js ''   '') initialState =
       (Boolean False, showNotification (js ''Task cannot be empty'') (js ''error'') initialState)
   \<and> tasks (snd (addTask 0 [] (js ''   '') initialState)) = tasks initialState
   \<and> addTask_pro exampleParseDate 0 [] (js ''   '') (js ''medium'') None (js ''Inbox'') seedState =
       (Boolean False,
        showNotification_pro (js ''Task cannot be empty'') (js ''error'') seedState)
   \<and> 100 < length (trim (replicate 101 0x61))
   \<and> addTask 0 [] (replicate 101 0x61) initialState =
       (Boolean False,
        showNotification (js ''Task must be less than 100 characters'') (js ''error'') initialState)
   \<and> tasks (snd (addTask 0 [] (replicate 101 0x61) initialState)) = tasks initialState"
  using add_rejects_invalid_text [of "js ''   ''" 0 "[]" initialState exampleParseDate
          "js ''medium''" None "js ''Inbox''" seedState]
        add_rejects_invalid_text [of "replicate 101 0x61" 0 "[]" initialState exampleParseDate
          "js ''medium''" None "js ''Inbox''" seedState]
  by (simp add: trim_spaces trim_long)

subsection \<open>C4: the projection and the underlying collection\<close>

text \<open>
  Claim C4 says that computing the projection (filter, then sort) never changes the
  task collection and gives a new sequence at each call. The code does otherwise at the
  state that the constructor builds on an empty storage (\<open>seedState_loaded\<close>; filter
  \<^verbatim>\<open>'all'\<close>, sort \<^verbatim>\<open>'newest'\<close>, the second seed task one millisecond newer than the
  first): \<^verbatim>\<open>getFilteredTasks\<close> returns \<^verbatim>\<open>this.tasks\<close> itself, \<^verbatim>\<open>sort\<close> reorders that array
  in place, so \<^verbatim>\<open>renderTasks\<close> hands out the collection's own array and leaves the
  collection in another order. With the filters \<^verbatim>\<open>'active'\<close>, \<^verbatim>\<open>'completed'\<close> and \<^verbatim>\<open>'high'\<close>
  it sorts a new array and the collection stays as it is (\<open>renderTasks_filtered\<close>).
\<close>

theorem renderTasks_sorts_store_in_place:
  "fst (renderTasks exampleParseDate seedState) = tasks_pro seedState
   \<and> arrays seedState (tasks_pro seedState) = [ptaskA, ptaskB]
   \<and> arrays (snd (renderTasks exampleParseDate seedState)) (tasks_pro seedState) = [ptaskB, ptaskA]
   \<and> [ptaskB, ptaskA] \<noteq> [ptaskA, ptaskB]"
  using date_literals_differ filter_literals
  by (simp add: renderTasks_def getFilteredTasks_pro_def sortTasks_def seedState_def Array_sort_def
        sortCompare_def numMinus_def exampleParseDate_def ptaskA_def ptaskB_def)

subsection \<open>C5: clearCompleted\<close>

text \<open>
  Claim C5, as amended. \<^verbatim>\<open>clearCompleted\<close> removes exactly the completed tasks and keeps
  the others in their order; it returns no value (\<^verbatim>\<open>undefined\<close>) and reports the number
  of removed tasks in the notification "Cleared N completed tasks"; that number is the
  number by which the collection shrinks; and it writes to the storage exactly once.
\<close>

theorem clearCompleted_effect:
  "fst (clearCompleted s) = Undefined
   \<and> tasks (snd (clearCompleted s)) = filter (\<lambda>t. \<not> completed t) (tasks s)
   \<and> hd (notifications (snd (clearCompleted s))) =
       (js ''Cleared '' @ toString (int (length (filter (\<lambda>t. completed t) (tasks s))))
          @ js '' completed tasks'', js ''info'')
   \<and> length (filter (\<lambda>t. completed t) (tasks s)) =
       length (tasks s) - length (tasks (snd (clearCompleted s)))
   \<and> setItemCalls (storage (snd (clearCompleted s))) = Suc (setItemCalls (storage s))"
proof -
  have "length (filter (\<lambda>t. completed t) (tasks s)) + length (filter (\<lambda>t. \<not> completed t) (tasks s))
        = length (tasks s)"
    by (rule sum_length_filter_compl)
  then show ?thesis
    by (simp add: clearCompleted_def Let_def)
qed

text \<open>
  The claim as stated, "returns the integer count of tasks removed", fails: with one
  completed task in the collection the method does not return 1.
\<close>

theorem clearCompleted_returns_count_counterexample:
  "length (filter (\<lambda>t. completed t) (tasks exampleState)) = 1
   \<and> fst (clearCompleted exampleState) \<noteq> Number 1"
  by (simp add: clearCompleted_def Let_def exampleState_def task1_def task2_def)

subsection \<open>C6: the filter modes\<close>



text \<open>
  The claim as stated fails: \<^verbatim>\<open>getFilteredTasks\<close> has no case \<^verbatim>\<open>'highPriority'\<close>. With that
  mode the Pro variant returns the collection itself, the task of medium priority
  included, and not the tasks of high priority; the mode that selects those is \<^verbatim>\<open>'high'\<close>.
\<close>

theorem highPriority_mode_counterexample:
  "arrays seedState (tasks_pro seedState) = [ptaskA, ptaskB]
   \<and> priority ptaskA = js ''high'' \<and> priority ptaskB = js ''medium''
   \<and> filter (\<lambda>t. priority t = js ''high'') (arrays seedState (tasks_pro seedState)) = [ptaskA]
   \<and> arrays (snd (getFilteredTasks_pro (seedState\<lparr>currentFilter_pro := js ''highPriority''\<rparr>)))
        (fst (getFilteredTasks_pro (seedState\<lparr>currentFilter_pro := js ''highPriority''\<rparr>)))
       = [ptaskA, ptaskB]
   \<and> arrays (snd (getFilteredTasks_pro (seedState\<lparr>currentFilter_pro := js ''highPriority''\<rparr>)))
        (fst (getFilteredTasks_pro (seedState\<lparr>currentFilter_pro := js ''highPriority''\<rparr>)))
       \<noteq> filter (\<lambda>t. priority t = js ''high'') (arrays seedState (tasks_pro seedState))"
proof -
  have p: "arrays seedState (tasks_pro seedState) = [ptaskA, ptaskB]"
    "priority ptaskA = js ''high''" "priority ptaskB = js ''medium''"
    by (simp_all add: seedState_def ptaskA_def ptaskB_def)
  have g: "getFilteredTasks_pro (seedState\<lparr>currentFilter_pro := js ''highPriority''\<rparr>)
           = (tasks_pro seedState, seedState\<lparr>currentFilter_pro := js ''highPriority''\<rparr>)"
    using mode_literals by (simp add: getFilteredTasks_pro_def Let_def)
  show ?thesis
    using js_priorities_distinct by (simp add: g p)
qed

subsection \<open>C7: the sort keys\<close>

text \<open>
  Claim C7. On tasks whose priority is high, medium or low, sort key \<^verbatim>\<open>'priority'\<close> gives
  the high tasks, then the medium ones, then the low ones, each group in its input order.
  On tasks whose \<^verbatim>\<open>createdAt\<close> is a valid date, \<^verbatim>\<open>'newest'\<close> gives a permutation in
  descending and \<^verbatim>\<open>'oldest'\<close> in ascending order of \<^verbatim>\<open>createdAt\<close>, tasks of equal date in
  their input order. Every other key (the default case) leaves the sequence as it is.
\<close>

theorem sortTasks_orders:
  "fst (sortTasks pd a s) = a
   \<and> (currentSort s = js ''priority''
        \<and> (\<forall>t\<in>set (arrays s a). priority t \<in> {js ''high'', js ''medium'', js ''low''}) \<longrightarrow>
      arrays (snd (sortTasks pd a s)) a
        = filter (\<lambda>t. priority t = js ''high'') (arrays s a)
          @ filter (\<lambda>t. priority t = js ''medium'') (arrays s a)
          @ filter (\<lambda>t. priority t = js ''low'') (arrays s a))
   \<and> (currentSort s = js ''newest'' \<and> (\<forall>t\<in>set (arrays s a). pd (createdAt t) \<noteq> None) \<longrightarrow>
      mset (arrays (snd (sortTasks pd a s)) a) = mset (arrays s a)
      \<and> sorted_wrt (\<lambda>x y. the (pd (createdAt y)) \<le> the (pd (createdAt x)))
           (arrays (snd (sortTasks pd a s)) a)
      \<and> (\<forall>k. filter (\<lambda>t. pd (createdAt t) = k) (arrays (snd (sortTasks pd a s)) a)
             = filter (\<lambda>t. pd (createdAt t) = k) (arrays s a)))
   \<and> (currentSort s = js ''oldest'' \<and> (\<forall>t\<in>set (arrays s a). pd (createdAt t) \<noteq> None) \<longrightarrow>
      mset (arrays (snd (sortTasks pd a s)) a) = mset (arrays s a)
      \<and> sorted_wrt (\<lambda>x y. the (pd (createdAt x)) \<le> the (pd (createdAt y)))
           (arrays (snd (sortTasks pd a s)) a)
      \<and> (\<forall>k. filter (\<lambda>t. pd (createdAt t) = k) (arrays (snd (sortTasks pd a s)) a)
             = filter (\<lambda>t. pd (createdAt t) = k) (arrays s a)))
   \<and> (currentSort s \<noteq> js ''newest'' \<and> currentSort s \<noteq> js ''oldest''
        \<and> currentSort s \<noteq> js ''priority'' \<longrightarrow>
      sortTasks pd a s = (a, s))"
proof (intro conjI impI allI)
  show "fst (sortTasks pd a s) = a" by (simp add: sortTasks_cases)
next
  assume h: "currentSort s = js ''priority''
        \<and> (\<forall>t\<in>set (arrays s a). priority t \<in> {js ''high'', js ''medium'', js ''low''})"
  then show "arrays (snd (sortTasks pd a s)) a
        = filter (\<lambda>t. priority t = js ''high'') (arrays s a)
          @ filter (\<lambda>t. priority t = js ''medium'') (arrays s a)
          @ filter (\<lambda>t. priority t = js ''low'') (arrays s a)"
    using js_sorts_distinct sort_by_priority [of "arrays s a"]
    by (simp add: sortTasks_cases)
next
  assume h: "currentSort s = js ''newest'' \<and> (\<forall>t\<in>set (arrays s a). pd (createdAt t) \<noteq> None)"
  then have e: "arrays (snd (sortTasks pd a s)) a
      = Array_sort (\<lambda>x y. numMinus (pd (createdAt y)) (pd (createdAt x))) (arrays s a)"
    by (simp add: sortTasks_cases)
  show "mset (arrays (snd (sortTasks pd a s)) a) = mset (arrays s a)"
    by (simp add: e)
  show "sorted_wrt (\<lambda>x y. the (pd (createdAt y)) \<le> the (pd (createdAt x)))
           (arrays (snd (sortTasks pd a s)) a)"
    unfolding e using h by (intro sort_newest(1)) simp
  show "filter (\<lambda>t. pd (createdAt t) = k) (arrays (snd (sortTasks pd a s)) a)
             = filter (\<lambda>t. pd (createdAt t) = k) (arrays s a)" for k
    unfolding e using h by (intro sort_newest(2)) simp
next
  assume h: "currentSort s = js ''oldest'' \<and> (\<forall>t\<in>set (arrays s a). pd (createdAt t) \<noteq> None)"
  then have e: "arrays (snd (sortTasks pd a s)) a
      = Array_sort (\<lambda>x y. numMinus (pd (createdAt x)) (pd (createdAt y))) (arrays s a)"
    using js_sorts_distinct by (simp add: sortTasks_cases)
  show "mset (arrays (snd (sortTasks pd a s)) a) = mset (arrays s a)"
    by (simp add: e)
  show "sorted_wrt (\<lambda>x y. the (pd (createdAt x)) \<le> the (pd (createdAt y)))
           (arrays (snd (sortTasks pd a s)) a)"
    unfolding e using h by (intro sort_oldest(1)) simp
  show "filter (\<lambda>t. pd (createdAt t) = k) (arrays (snd (sortTasks pd a s)) a)
             = filter (\<lambda>t. pd (createdAt t) = k) (arrays s a)" for k
    unfolding e using h by (intro sort_oldest(2)) simp
next
  assume "currentSort s \<noteq> js ''newest'' \<and> currentSort s \<noteq> js ''oldest''
        \<and> currentSort s \<noteq> js ''priority''"
  then show "sortTasks pd a s = (a, s)" by (simp add: sortTasks_cases)
qed

text \<open>The theorem at an array of a medium, a high and a medium task, once for each key.\<close>

theorem sortTasks_orders_witness:
  "list_all (\<lambda>t. priority t \<in> {js ''high'', js ''medium'', js ''low''}) (arrays unsortedState 0)
   \<and> arrays (snd (sortTasks exampleParseDate 0 (unsortedState\<lparr>currentSort := js ''priority''\<rparr>))) 0
       = [ptaskA, ptaskB, ptaskB]
   \<and> list_all (\<lambda>t. exampleParseDate (createdAt t) \<noteq> None) (arrays unsortedState 0)
   \<and> sorted_wrt (\<lambda>x y. the (exampleParseDate (createdAt y)) \<le> the (exampleParseDate (createdAt x)))
        (arrays (snd (sortTasks exampleParseDate 0 unsortedState)) 0)
   \<and> mset (arrays (snd (sortTasks exampleParseDate 0 unsortedState)) 0) = mset [ptaskB, ptaskA, ptaskB]
   \<and> sorted_wrt (\<lambda>x y. the (exampleParseDate (createdAt x)) \<le> the (exampleParseDate (createdAt y)))
        (arrays (snd (sortTasks exampleParseDate 0 (unsortedState\<lparr>currentSort := js ''oldest''\<rparr>))) 0)
   \<and> sortTasks exampleParseDate 0 (unsortedState\<lparr>currentSort := js ''none''\<rparr>)
       = (0, unsortedState\<lparr>currentSort := js ''none''\<rparr>)"
proof -
  have a: "arrays unsortedState 0 = [ptaskB, ptaskA, ptaskB]" "currentSort unsortedState = js ''newest''"
    by (simp_all add: unsortedState_def seedState_def)
  have p: "priority ptaskA = js ''high''" "priority ptaskB = js ''medium''"
    "exampleParseDate (createdAt ptaskA) = Some 1735722000000"
    "exampleParseDate (createdAt ptaskB) = Some 1735722000001"
    using date_literals_differ by (simp_all add: ptaskA_def ptaskB_def exampleParseDate_def)
  have n: "js ''none'' \<noteq> js ''newest''" "js ''none'' \<noteq> js ''oldest''" "js ''none'' \<noteq> js ''priority''"
    by (simp_all add: js_def)
  show ?thesis
    using sortTasks_orders [of exampleParseDate 0 "unsortedState\<lparr>currentSort := js ''priority''\<rparr>"]
          sortTasks_orders [of exampleParseDate 0 unsortedState]
          sortTasks_orders [of exampleParseDate 0 "unsortedState\<lparr>currentSort := js ''oldest''\<rparr>"]
          sortTasks_orders [of exampleParseDate 0 "unsortedState\<lparr>currentSort := js ''none''\<rparr>"]
          js_priorities_distinct js_sorts_distinct n
    by (simp add: a p)
qed

subsection \<open>C8: new tasks come first, and the order of the others is kept\<close>

text \<open>
  Claim C8. A successful \<^verbatim>\<open>addTask\<close> puts the new task in front of the collection and
  leaves the tasks behind it as they were. \<^verbatim>\<open>toggleTask\<close> and \<^verbatim>\<open>editTask\<close> leave every
  task at its place, with its id and time stamp; \<^verbatim>\<open>deleteTask\<close> and \<^verbatim>\<open>clearCompleted\<close>
  keep the remaining tasks in their order. So after every sequence of operations the
  time stamps of the collection are a subsequence of the stamps of the adds, newest
  first, followed by the stamps the collection had before.
\<close>

theorem newest_first_order:
  "(fst (addTask now stamp txt s) = Boolean True \<longrightarrow>
      tasks (snd (addTask now stamp txt s))
        = \<lparr>id' = toString now, text' = trim txt, completed = False, createdAt = stamp\<rparr> # tasks s)
   \<and> map (\<lambda>t. (id' t, text' t, createdAt t)) (tasks (snd (toggleTask i s)))
       = map (\<lambda>t. (id' t, text' t, createdAt t)) (tasks s)
   \<and> map (\<lambda>t. (id' t, completed t, createdAt t)) (tasks (snd (editTask i txt s)))
       = map (\<lambda>t. (id' t, completed t, createdAt t)) (tasks s)
   \<and> tasks (snd (deleteTask i s)) = filter (\<lambda>t. id' t \<noteq> i) (tasks s)
   \<and> tasks (snd (clearCompleted s)) = filter (\<lambda>t. \<not> completed t) (tasks s)
   \<and> subseq (map createdAt (tasks (run ops s))) (rev (addedStamps ops) @ map createdAt (tasks s))"
proof (intro conjI impI)
  assume "fst (addTask now stamp txt s) = Boolean True"
  then show "tasks (snd (addTask now stamp txt s))
        = \<lparr>id' = toString now, text' = trim txt, completed = False, createdAt = stamp\<rparr> # tasks s"
    by (auto simp add: fst_addTask tasks_addTask)
next
  have "map (\<lambda>t. (id' t, text' t, createdAt t))
          (updateFirst (\<lambda>t. id' t = i) (\<lambda>t. t\<lparr>completed := \<not> completed t\<rparr>) (tasks s))
        = map (\<lambda>t. (id' t, text' t, createdAt t)) (tasks s)"
    by (rule updateFirst_map) simp
  then show "map (\<lambda>t. (id' t, text' t, createdAt t)) (tasks (snd (toggleTask i s)))
       = map (\<lambda>t. (id' t, text' t, createdAt t)) (tasks s)"
    by (simp add: tasks_toggleTask)
next
  have "map (\<lambda>t. (id' t, completed t, createdAt t))
          (updateFirst (\<lambda>t. id' t = i) (\<lambda>t. t\<lparr>text' := trim txt\<rparr>) (tasks s))
        = map (\<lambda>t. (id' t, completed t, createdAt t)) (tasks s)"
    by (rule updateFirst_map) simp
  then show "map (\<lambda>t. (id' t, completed t, createdAt t)) (tasks (snd (editTask i txt s)))
       = map (\<lambda>t. (id' t, completed t, createdAt t)) (tasks s)"
    by (simp add: tasks_editTask)
next
  show "tasks (snd (deleteTask i s)) = filter (\<lambda>t. id' t \<noteq> i) (tasks s)"
    by (rule tasks_deleteTask)
next
  show "tasks (snd (clearCompleted s)) = filter (\<lambda>t. \<not> completed t) (tasks s)"
    by (rule tasks_clearCompleted)
next
  show "subseq (map createdAt (tasks (run ops s))) (rev (addedStamps ops) @ map createdAt (tasks s))"
    by (rule subseq_run)
qed

text \<open>The theorem at an add to the example state.\<close>

theorem newest_first_order_witness:
  "fst (addTask 1700000000003 (js ''2023-11-14T22:13:20.003Z'') (js ''  Call Bob '') exampleState)
     = Boolean True
   \<and> tasks (snd (addTask 1700000000003 (js ''2023-11-14T22:13:20.003Z'') (js ''  Call Bob '')
        exampleState))
     = [\<lparr>id' = js ''1700000000003'', text' = js ''Call Bob'', completed = False,
         createdAt = js ''2023-11-14T22:13:20.003Z''\<rparr>, task2, task1]"
  using newest_first_order [of 1700000000003 "js ''2023-11-14T22:13:20.003Z''" "js ''  Call Bob ''"
          exampleState] nonempty_literals
  by (simp add: fst_addTask trim_examples toString_examples example_tasks)

subsection \<open>C9: every stored text is trimmed and non-empty\<close>

text \<open>
  Claim C9. When every text of the collection is non-empty and equal to its trimmed form,
  this is so after every sequence of add, toggle, edit, delete and clearCompleted, and
  after \<^verbatim>\<open>addTask\<close> of the Pro variant. Such a text neither begins nor ends with white
  space.
\<close>

theorem texts_stay_trimmed:
  "(textsTrimmed (tasks s) \<longrightarrow> textsTrimmed (tasks (run ops s)))
   \<and> (textsTrimmed (arrays p (tasks_pro p)) \<and> tasks_pro p < nextAddr p \<longrightarrow>
      textsTrimmed (arrays (snd (addTask_pro pd now stamp txt prio due proj p))
                      (tasks_pro (snd (addTask_pro pd now stamp txt prio due proj p)))))
   \<and> (textsTrimmed ts \<and> t \<in> set ts \<longrightarrow>
      text' t \<noteq> [] \<and> trim (text' t) = text' t
      \<and> \<not> isWhiteSpace (hd (text' t)) \<and> \<not> isWhiteSpace (last (text' t)))"
proof (intro conjI impI)
  assume "textsTrimmed (tasks s)"
  then show "textsTrimmed (tasks (run ops s))" by (rule textsTrimmed_run)
next
  assume h: "textsTrimmed (arrays p (tasks_pro p)) \<and> tasks_pro p < nextAddr p"
  let ?new = "\<lparr>id' = toString now, text' = trim txt, completed = False, createdAt = stamp,
                 priority = prio, dueDate = due, project = proj, propertyOrder = ProjectFirst\<rparr>"
  let ?p' = "snd (addTask_pro pd now stamp txt prio due proj p)"
  have w: "tasks_pro p < nextAddr p" using h by simp
  have t: "tasks_pro ?p' = tasks_pro p" by (rule addTask_pro_store(1) [OF w])
  have m: "mset (arrays ?p' (tasks_pro p)) =
       mset (if trim txt = [] then arrays p (tasks_pro p) else ?new # arrays p (tasks_pro p))"
    using addTask_pro_store(2) [OF w, of pd now stamp "txt" prio due proj] by simp
  have "textsTrimmed (if trim txt = [] then arrays p (tasks_pro p) else ?new # arrays p (tasks_pro p))"
    using h by (auto simp add: textsTrimmed_iff trim_idem)
  then show "textsTrimmed (arrays ?p' (tasks_pro ?p'))"
    using textsTrimmed_mset [OF m] by (simp add: t)
next
  assume h: "textsTrimmed ts \<and> t \<in> set ts"
  then have a: "text' t \<noteq> []" "trim (text' t) = text' t"
    by (auto simp add: textsTrimmed_iff)
  show "text' t \<noteq> []" by (rule a)
  show "trim (text' t) = text' t" by (rule a)
  show "\<not> isWhiteSpace (hd (text' t))" using a by (intro trimmed_ends) auto
  show "\<not> isWhiteSpace (last (text' t))" using a by (intro trimmed_ends) auto
qed

text \<open>The theorem at the example state and sequence, and at the seed state.\<close>

theorem texts_stay_trimmed_witness:
  "textsTrimmed (tasks exampleState)
   \<and> textsTrimmed (tasks (run exampleOps exampleState))
   \<and> map text' (tasks (run exampleOps exampleState)) = [js ''Call Bob'']
   \<and> textsTrimmed (arrays seedState (tasks_pro seedState))
   \<and> tasks_pro seedState < nextAddr seedState
   \<and> textsTrimmed
        (arrays (snd (addTask_pro exampleParseDate 1700000000003 (js ''2025-01-01T09:00:00.001Z'')
                       (js ''  Call Bob '') (js ''low'') None (js ''Inbox'') seedState))
           (tasks_pro (snd (addTask_pro exampleParseDate 1700000000003 (js ''2025-01-01T09:00:00.001Z'')
                       (js ''  Call Bob '') (js ''low'') None (js ''Inbox'') seedState))))
   \<and> task1 \<in> set (tasks exampleState)
   \<and> \<not> isWhiteSpace (hd (text' task1)) \<and> \<not> isWhiteSpace (last (text' task1))"
proof -
  have a: "textsTrimmed (tasks exampleState)" "textsTrimmed (arrays seedState (tasks_pro seedState))"
    using nonempty_literals
    by (simp_all add: textsTrimmed_def example_tasks example_ptasks trim_examples)
  show ?thesis
    using texts_stay_trimmed [of exampleState exampleOps seedState exampleParseDate 1700000000003
            "js ''2025-01-01T09:00:00.001Z''" "js ''  Call Bob ''" "js ''low''" None "js ''Inbox''"
            "tasks exampleState" task1] a
    by (simp add: run_exampleOps example_tasks example_ptasks)
qed

subsection \<open>C10: the bound of 100 characters is on the trimmed text, and strict\<close>

text \<open>
  Claim C10. A text whose trimmed length is exactly 100 is accepted by \<^verbatim>\<open>addTask\<close> and by
  \<^verbatim>\<open>editTask\<close> (on a task that exists); validation, \<^verbatim>\<open>addTask\<close> and \<^verbatim>\<open>editTask\<close> reject a
  text as too long exactly when its trimmed length is 101 or more; and white space
  around the text does not change the outcome of validation.
\<close>

theorem length_bound_is_strict:
  "(length (trim txt) = 100 \<longrightarrow>
      fst (addTask now stamp txt s) = Boolean True
      \<and> (find (\<lambda>t. id' t = i) (tasks s) \<noteq> None \<longrightarrow> fst (editTask i txt s) = Boolean True))
   \<and> (validateTask txt s =
        (False, showNotification (js ''Task must be less than 100 characters'') (js ''error'') s)
      \<longleftrightarrow> 101 \<le> length (trim txt))
   \<and> (addTask now stamp txt s =
        (Boolean False, showNotification (js ''Task must be less than 100 characters'') (js ''error'') s)
      \<longleftrightarrow> 101 \<le> length (trim txt))
   \<and> (editTask i txt s =
        (Boolean False, showNotification (js ''Task must be less than 100 characters'') (js ''error'') s)
      \<longleftrightarrow> 101 \<le> length (trim txt))
   \<and> ((\<forall>c\<in>set w1. isWhiteSpace c) \<and> (\<forall>c\<in>set w2. isWhiteSpace c) \<longrightarrow>
      validateTask (w1 @ txt @ w2) s = validateTask txt s)"
proof (intro conjI impI)
  assume h: "length (trim txt) = 100"
  then have ne: "trim txt \<noteq> []" by auto
  show "fst (addTask now stamp txt s) = Boolean True"
    using h ne by (simp add: addTask_accept)
  assume "find (\<lambda>t. id' t = i) (tasks s) \<noteq> None"
  then obtain t0 where "find (\<lambda>t. id' t = i) (tasks s) = Some t0" by auto
  then show "fst (editTask i txt s) = Boolean True"
    using h ne by (simp add: editTask_accept)
next
  show "validateTask txt s =
        (False, showNotification (js ''Task must be less than 100 characters'') (js ''error'') s)
      \<longleftrightarrow> 101 \<le> length (trim txt)"
    using msgs_differ by (auto simp add: validateTask_cases showNotification_inj)
next
  show "addTask now stamp txt s =
        (Boolean False, showNotification (js ''Task must be less than 100 characters'') (js ''error'') s)
      \<longleftrightarrow> 101 \<le> length (trim txt)"
    using msgs_differ
    by (auto simp add: addTask_def validateTask_cases showNotification_inj Let_def)
next
  show "editTask i txt s =
        (Boolean False, showNotification (js ''Task must be less than 100 characters'') (js ''error'') s)
      \<longleftrightarrow> 101 \<le> length (trim txt)"
    using msgs_differ showNotification_neq [of "js ''Task must be less than 100 characters''" "js ''error''" s]
    by (auto simp add: editTask_def validateTask_cases showNotification_inj Let_def
          split: option.splits)
next
  assume "(\<forall>c\<in>set w1. isWhiteSpace c) \<and> (\<forall>c\<in>set w2. isWhiteSpace c)"
  then have "trim (w1 @ txt @ w2) = trim txt" by (simp add: trim_ws_append)
  then show "validateTask (w1 @ txt @ w2) s = validateTask txt s"
    by (simp add: validateTask_cases)
qed

text \<open>The theorem at a text of 100 letters, bare and between blanks.\<close>

theorem length_bound_is_strict_witness:
  "length (trim (replicate 100 0x61)) = 100
   \<and> fst (addTask 1700000000003 [] (replicate 100 0x61) exampleState) = Boolean True
   \<and> find (\<lambda>t. id' t = js ''1700000000001'') (tasks exampleState) \<noteq> None
   \<and> fst (editTask (js ''1700000000001'') (replicate 100 0x61) exampleState) = Boolean True
   \<and> list_all isWhiteSpace (js ''  '')
   \<and> validateTask (js ''  '' @ replicate 100 0x61 @ js ''  '') exampleState
       = validateTask (replicate 100 0x61) exampleState"
proof -
  have f: "find (\<lambda>t. id' t = js ''1700000000001'') (tasks exampleState) \<noteq> None"
    by (simp add: exampleState_def task1_def task2_def js_def)
  show ?thesis
    using length_bound_is_strict [of "replicate 100 0x61" 1700000000003 "[]" exampleState
            "js ''1700000000001''" "js ''  ''" "js ''  ''"] f space_is_ws
    by (simp add: trim_hundred list_all_iff)
qed

end
